theory Spec2Isabelle
  imports Main
begin

section \<open>Python values\<close>

text \<open>
  The server (\<^verbatim>\<open>src/hatchet_mcp/server.py\<close>) receives objects of the Hatchet SDK and
  probes them with \<^verbatim>\<open>hasattr\<close>; their declared type is \<^verbatim>\<open>Any\<close>. The values of the model
  are: \<^verbatim>\<open>None\<close>, a \<^verbatim>\<open>str\<close>, a member of the SDK's \<^verbatim>\<open>V1TaskStatus(str, Enum)\<close>, and any
  other object, given by its class name, its \<^verbatim>\<open>str()\<close> rendering and its data attributes
  (a pydantic model of the SDK, a \<^verbatim>\<open>datetime\<close>, a \<^verbatim>\<open>dict\<close>). Attribute values are data,
  never callables.
\<close>

datatype V1TaskStatus = QUEUED | RUNNING | COMPLETED | CANCELLED | FAILED

fun status_value :: "V1TaskStatus \<Rightarrow> string" where
  "status_value QUEUED = ''QUEUED''"
| "status_value RUNNING = ''RUNNING''"
| "status_value COMPLETED = ''COMPLETED''"
| "status_value CANCELLED = ''CANCELLED''"
| "status_value FAILED = ''FAILED''"

datatype pyval =
    PNone
  | PStr string
  | PEnum V1TaskStatus
  | PObj string string "(string \<times> pyval) list"

text \<open>The empty dict literal \<^verbatim>\<open>{}\<close>: an object of class dict with no attribute of its own.\<close>

definition empty_dict :: pyval where
  "empty_dict = PObj ''dict'' ''{}'' []"

fun type_name :: "pyval \<Rightarrow> string" where
  "type_name PNone = ''NoneType''"
| "type_name (PStr s) = ''str''"
| "type_name (PEnum e) = ''V1TaskStatus''"
| "type_name (PObj cls s attrs) = cls"

text \<open>
  \<^verbatim>\<open>str(x)\<close>. A member of a \<^verbatim>\<open>(str, Enum)\<close> class renders as \<^verbatim>\<open>Class.MEMBER\<close>.
\<close>

fun py_str :: "pyval \<Rightarrow> string" where
  "py_str PNone = ''None''"
| "py_str (PStr s) = s"
| "py_str (PEnum e) = ''V1TaskStatus.'' @ status_value e"
| "py_str (PObj cls s attrs) = s"

subsection \<open>Exceptions\<close>

text \<open>
  The exceptions a call can end with. \<open>Error msg\<close> is any other instance of \<^verbatim>\<open>Exception\<close>
  (of the SDK, of the network), given by its \<^verbatim>\<open>str()\<close>. The last three derive from
  \<^verbatim>\<open>BaseException\<close> only: \<^verbatim>\<open>asyncio.CancelledError\<close>, raised at an \<^verbatim>\<open>await\<close> when the task
  is cancelled, \<^verbatim>\<open>KeyboardInterrupt\<close> and \<^verbatim>\<open>SystemExit\<close>; each is given by its \<^verbatim>\<open>str()\<close>.
\<close>

datatype exception =
    AttributeError string string
  | TypeError string
  | OverflowError string
  | KeyError string
  | Error string
  | CancelledError string
  | KeyboardInterrupt string
  | SystemExit string

text \<open>\<^verbatim>\<open>isinstance(e, Exception)\<close>: what \<^verbatim>\<open>except Exception\<close> catches.\<close>

fun isinstance_Exception :: "exception \<Rightarrow> bool" where
  "isinstance_Exception (CancelledError msg) = False"
| "isinstance_Exception (KeyboardInterrupt msg) = False"
| "isinstance_Exception (SystemExit msg) = False"
| "isinstance_Exception e = True"

definition quoted :: "string \<Rightarrow> string" where
  "quoted s = CHR 0x27 # s @ [CHR 0x27]"

fun exc_str :: "exception \<Rightarrow> string" where
  "exc_str (AttributeError cls a) = quoted cls @ '' object has no attribute '' @ quoted a"
| "exc_str (TypeError cls) = quoted cls @ '' object is not callable''"
| "exc_str (OverflowError msg) = msg"
| "exc_str (KeyError k) = quoted k"
| "exc_str (Error msg) = msg"
| "exc_str (CancelledError msg) = msg"
| "exc_str (KeyboardInterrupt msg) = msg"
| "exc_str (SystemExit msg) = msg"

subsection \<open>Attributes\<close>

text \<open>
  The data attributes of a value. An enum member has \<^verbatim>\<open>name\<close> and \<^verbatim>\<open>value\<close>; \<^verbatim>\<open>None\<close> and a
  plain \<^verbatim>\<open>str\<close> have none of the attributes the server reads.
\<close>

fun attrs_of :: "pyval \<Rightarrow> (string \<times> pyval) list" where
  "attrs_of (PObj cls s attrs) = attrs"
| "attrs_of (PEnum e) = [(''name'', PStr (status_value e)), (''value'', PStr (status_value e))]"
| "attrs_of PNone = []"
| "attrs_of (PStr s) = []"

definition getattr :: "pyval \<Rightarrow> string \<Rightarrow> exception + pyval" where
  "getattr v a = (case map_of (attrs_of v) a of
                    Some x \<Rightarrow> Inr x
                  | None \<Rightarrow> Inl (AttributeError (type_name v) a))"

definition hasattr :: "pyval \<Rightarrow> string \<Rightarrow> bool" where
  "hasattr v a = (case getattr v a of Inr x \<Rightarrow> True | Inl e \<Rightarrow> False)"

text \<open>\<^verbatim>\<open>v.a if hasattr(v, "a") else d\<close>\<close>

definition attr_or :: "pyval \<Rightarrow> string \<Rightarrow> pyval \<Rightarrow> pyval" where
  "attr_or v a d = (case getattr v a of Inr x \<Rightarrow> x | Inl e \<Rightarrow> d)"

text \<open>\<^verbatim>\<open>str(v.a) if hasattr(v, "a") else None\<close>\<close>

definition str_attr_or_none :: "pyval \<Rightarrow> string \<Rightarrow> pyval" where
  "str_attr_or_none v a = (case getattr v a of Inr x \<Rightarrow> PStr (py_str x) | Inl e \<Rightarrow> PNone)"

subsection \<open>Strings\<close>

text \<open>
  \<^verbatim>\<open>str.lower()\<close> on the ASCII letters; every other character is kept. No character
  outside ASCII lowers to a letter of the status names.
\<close>

definition ascii_upper :: string where
  "ascii_upper = ''ABCDEFGHIJKLMNOPQRSTUVWXYZ''"

definition ascii_lower :: string where
  "ascii_lower = ''abcdefghijklmnopqrstuvwxyz''"

definition lower_char :: "char \<Rightarrow> char" where
  "lower_char c = (case map_of (zip ascii_upper ascii_lower) c of Some d \<Rightarrow> d | None \<Rightarrow> c)"

definition upper_char :: "char \<Rightarrow> char" where
  "upper_char c = (case map_of (zip ascii_lower ascii_upper) c of Some d \<Rightarrow> d | None \<Rightarrow> c)"

definition lower :: "string \<Rightarrow> string" where
  "lower s = map lower_char s"

text \<open>
  \<^verbatim>\<open>v.lower()\<close> on a value: a \<^verbatim>\<open>str\<close> (an enum member is one) is lowered; any other value
  has no method \<^verbatim>\<open>lower\<close>, and a data attribute of that name cannot be called.
\<close>

fun py_lower :: "pyval \<Rightarrow> exception + string" where
  "py_lower (PStr s) = Inr (lower s)"
| "py_lower (PEnum e) = Inr (lower (status_value e))"
| "py_lower v = (case getattr v ''lower'' of
                   Inl e \<Rightarrow> Inl e
                 | Inr f \<Rightarrow> Inl (TypeError (type_name f)))"

text \<open>\<^verbatim>\<open>v == s\<close> for a \<^verbatim>\<open>str\<close> \<open>s\<close>.\<close>

fun py_eq_str :: "pyval \<Rightarrow> string \<Rightarrow> bool" where
  "py_eq_str (PStr t) s = (t = s)"
| "py_eq_str (PEnum e) s = (status_value e = s)"
| "py_eq_str v s = False"

text \<open>A string that differs from \<open>name\<close> only in the case of its letters.\<close>

definition case_variant :: "string \<Rightarrow> string \<Rightarrow> bool" where
  "case_variant s name = list_all2 (\<lambda>c d. c = d \<or> c = upper_char d) s name"

section \<open>The status table\<close>

text \<open>\<^verbatim>\<open>STATUS_MAP\<close>, lines 31-38.\<close>

definition STATUS_MAP :: "string \<rightharpoonup> V1TaskStatus" where
  "STATUS_MAP = map_of
     [(''queued'', QUEUED),
      (''running'', RUNNING),
      (''completed'', COMPLETED),
      (''succeeded'', COMPLETED),
      (''failed'', FAILED),
      (''cancelled'', CANCELLED)]"

section \<open>Dates\<close>

text \<open>
  An aware UTC \<^verbatim>\<open>datetime\<close> is its number of microseconds since 0001-01-01T00:00:00; the
  last one is 9999-12-31T23:59:59.999999. A \<^verbatim>\<open>timedelta\<close> is a number of microseconds,
  with at most 999999999 days in either direction.
\<close>

definition us_per_hour :: int where
  "us_per_hour = 3600000000"

definition datetime_end :: int where
  "datetime_end = 3652059 * 24 * us_per_hour"

fun digit_str :: "nat \<Rightarrow> string" where
  "digit_str n = (if n < 10 then [char_of (48 + n)] else digit_str (n div 10) @ [char_of (48 + n mod 10)])"

declare digit_str.simps [simp del]

definition int_str :: "int \<Rightarrow> string" where
  "int_str i = (if i < 0 then CHR ''-'' # digit_str (nat (- i)) else digit_str (nat i))"

text \<open>\<^verbatim>\<open>timedelta(hours=h)\<close>\<close>

definition timedelta_hours :: "int \<Rightarrow> exception + int" where
  "timedelta_hours h =
     (let days = h div 24 in
      if days < - (2 ^ 31) \<or> 2 ^ 31 \<le> days
      then Inl (OverflowError ''Python int too large to convert to C int'')
      else if 999999999 < \<bar>days\<bar>
      then Inl (OverflowError (''days='' @ int_str days @ ''; must have magnitude <= 999999999''))
      else Inr (h * us_per_hour))"

text \<open>\<^verbatim>\<open>t - d\<close> for a datetime \<open>t\<close> and a timedelta \<open>d\<close>\<close>

definition datetime_sub :: "int \<Rightarrow> int \<Rightarrow> exception + int" where
  "datetime_sub t d =
     (if 0 \<le> t - d \<and> t - d < datetime_end then Inr (t - d)
      else Inl (OverflowError ''date value out of range''))"

text \<open>\<^verbatim>\<open>datetime.now(tz=timezone.utc) - timedelta(hours=h)\<close>, the clock reading \<open>now\<close>.\<close>

definition hours_before :: "int \<Rightarrow> int \<Rightarrow> exception + int" where
  "hours_before now h =
     (case timedelta_hours h of
        Inl e \<Rightarrow> Inl e
      | Inr d \<Rightarrow> datetime_sub now d)"

section \<open>The remote client\<close>

text \<open>
  The keyword arguments of \<^verbatim>\<open>hatchet.runs.aio_list(**params)\<close>: a key that is absent from
  the dict is \<open>None\<close>.
\<close>

record params =
  since :: int
  limit :: int
  statuses :: "V1TaskStatus list option"
  workflow_ids :: "pyval list option"
  additional_metadata :: "(string \<rightharpoonup> string) option"

text \<open>
  A client answers each call with an exception or a value; the answer of a list call is
  its \<^verbatim>\<open>rows\<close> attribute, \<^verbatim>\<open>None\<close> or a list. The service is read through pure functions:
  the same request has the same answer.
\<close>

record client =
  workflows_aio_list :: "exception + pyval list option"
  runs_aio_list :: "params \<Rightarrow> exception + pyval list option"
  runs_aio_get :: "string \<Rightarrow> exception + pyval"
  runs_aio_get_result :: "string \<Rightarrow> exception + pyval"

datatype request =
    WorkflowsList
  | RunsList params
  | RunsGet string
  | RunsGetResult string

text \<open>
  The state of the process: the \<^verbatim>\<open>lru_cache\<close> of \<^verbatim>\<open>get_hatchet_client\<close> (a handle is the
  client with the number of the constructor call that made it, its identity), how often
  the constructor was called, how often it returned, and the requests sent so far.
\<close>

record state =
  cache :: "(nat \<times> client) option"
  attempts :: nat
  constructed :: nat
  requests :: "request list"

text \<open>The state after the module is imported: nothing is cached, nothing was built.\<close>

definition initial_state :: state where
  "initial_state = \<lparr>cache = None, attempts = 0, constructed = 0, requests = []\<rparr>"

text \<open>
  \<^verbatim>\<open>get_hatchet_client\<close>, lines 24-27. \<open>Hatchet n\<close> is what the constructor call
  \<^verbatim>\<open>Hatchet(debug=False)\<close> number \<open>n\<close> of the process does; \<^verbatim>\<open>lru_cache\<close> stores a
  returned value, never an exception.
\<close>

definition get_hatchet_client ::
  "(nat \<Rightarrow> exception + client) \<Rightarrow> state \<Rightarrow> (exception + nat \<times> client) \<times> state" where
  "get_hatchet_client Hatchet st =
     (case cache st of
        Some hatchet \<Rightarrow> (Inr hatchet, st)
      | None \<Rightarrow>
          (case Hatchet (attempts st) of
             Inl e \<Rightarrow> (Inl e, st\<lparr>attempts := attempts st + 1\<rparr>)
           | Inr c \<Rightarrow>
               (Inr (attempts st, c),
                st\<lparr>cache := Some (attempts st, c),
                   attempts := attempts st + 1,
                   constructed := constructed st + 1\<rparr>)))"

text \<open>The four calls of the client the server makes; each one is recorded.\<close>

definition aio_workflows_list ::
  "nat \<times> client \<Rightarrow> state \<Rightarrow> (exception + pyval list option) \<times> state" where
  "aio_workflows_list hatchet st =
     (workflows_aio_list (snd hatchet), st\<lparr>requests := requests st @ [WorkflowsList]\<rparr>)"

definition aio_runs_list ::
  "nat \<times> client \<Rightarrow> params \<Rightarrow> state \<Rightarrow> (exception + pyval list option) \<times> state" where
  "aio_runs_list hatchet p st =
     (runs_aio_list (snd hatchet) p, st\<lparr>requests := requests st @ [RunsList p]\<rparr>)"

definition aio_runs_get ::
  "nat \<times> client \<Rightarrow> string \<Rightarrow> state \<Rightarrow> (exception + pyval) \<times> state" where
  "aio_runs_get hatchet run_id st =
     (runs_aio_get (snd hatchet) run_id, st\<lparr>requests := requests st @ [RunsGet run_id]\<rparr>)"

definition aio_runs_get_result ::
  "nat \<times> client \<Rightarrow> string \<Rightarrow> state \<Rightarrow> (exception + pyval) \<times> state" where
  "aio_runs_get_result hatchet run_id st =
     (runs_aio_get_result (snd hatchet) run_id,
      st\<lparr>requests := requests st @ [RunsGetResult run_id]\<rparr>)"

text \<open>\<^verbatim>\<open>(x.rows or [])\<close>\<close>

definition rows_or_empty :: "pyval list option \<Rightarrow> pyval list" where
  "rows_or_empty rows = (case rows of None \<Rightarrow> [] | Some rs \<Rightarrow> rs)"

section \<open>The flatteners\<close>

text \<open>
  The values of the dicts the tools return: a value of the service or a string or
  \<^verbatim>\<open>None\<close> built by the server (\<open>JVal\<close>), an int, or a dict of ints.
\<close>

datatype jval =
    JVal pyval
  | JInt int
  | JIntDict "string \<rightharpoonup> int"

type_synonym jdict = "string \<rightharpoonup> jval"

text \<open>
  \<^verbatim>\<open>_serialize_run\<close>, lines 41-53. Of the eight entries only \<^verbatim>\<open>run.status.value\<close> reads
  an attribute without a guard of its own.
\<close>

definition serialize_run :: "pyval \<Rightarrow> exception + jdict" where
  "serialize_run run =
     (let metadata = attr_or run ''metadata'' empty_dict in
      case (if hasattr run ''status''
            then (case getattr run ''status'' of
                    Inl e \<Rightarrow> Inl e
                  | Inr status \<Rightarrow> getattr status ''value'')
            else Inr PNone) of
        Inl e \<Rightarrow> Inl e
      | Inr v \<Rightarrow>
          Inr [''id'' \<mapsto> JVal (attr_or metadata ''id'' (PStr (py_str run))),
               ''workflow_id'' \<mapsto> JVal (attr_or run ''workflow_id'' PNone),
               ''workflow_name'' \<mapsto> JVal (attr_or run ''workflow_name'' PNone),
               ''status'' \<mapsto> JVal v,
               ''created_at'' \<mapsto> JVal (str_attr_or_none run ''created_at''),
               ''started_at'' \<mapsto> JVal (str_attr_or_none run ''started_at''),
               ''finished_at'' \<mapsto> JVal (str_attr_or_none run ''finished_at''),
               ''additional_metadata'' \<mapsto> JVal (attr_or run ''additional_metadata'' empty_dict)])"

text \<open>\<^verbatim>\<open>_serialize_workflow\<close>, lines 56-64.\<close>

definition serialize_workflow :: "pyval \<Rightarrow> jdict" where
  "serialize_workflow workflow =
     (let metadata = attr_or workflow ''metadata'' empty_dict in
      [''id'' \<mapsto> JVal (attr_or metadata ''id'' (PStr (py_str workflow))),
       ''name'' \<mapsto> JVal (attr_or workflow ''name'' PNone),
       ''description'' \<mapsto> JVal (attr_or workflow ''description'' PNone),
       ''version'' \<mapsto> JVal (attr_or workflow ''version'' PNone)])"

text \<open>\<^verbatim>\<open>[f(r) for r in rows]\<close> where \<open>f\<close> may raise: the first exception ends the loop.\<close>

fun map_exc :: "('a \<Rightarrow> exception + 'b) \<Rightarrow> 'a list \<Rightarrow> exception + 'b list" where
  "map_exc f [] = Inr []"
| "map_exc f (x # xs) =
     (case f x of
        Inl e \<Rightarrow> Inl e
      | Inr y \<Rightarrow> (case map_exc f xs of Inl e \<Rightarrow> Inl e | Inr ys \<Rightarrow> Inr (y # ys)))"

section \<open>Building the query\<close>

text \<open>
  Lines 108-109 of \<^verbatim>\<open>list_runs\<close> and 253-254 of \<^verbatim>\<open>search_runs\<close>:
  \<^verbatim>\<open>if status and status.lower() in STATUS_MAP: params["statuses"] = [STATUS_MAP[status.lower()]]\<close>
\<close>

definition add_status_filter :: "string option \<Rightarrow> params \<Rightarrow> params" where
  "add_status_filter status p =
     (case status of
        None \<Rightarrow> p
      | Some s \<Rightarrow>
          if s \<noteq> [] \<and> lower s \<in> dom STATUS_MAP
          then (case STATUS_MAP (lower s) of
                  Some code \<Rightarrow> p\<lparr>statuses := Some [code]\<rparr>
                | None \<Rightarrow> p)
          else p)"

text \<open>
  The comprehension of lines 114-117 and 183-186:
  \<^verbatim>\<open>[w.metadata.id for w in rows if hasattr(w, "name") and w.name == workflow_name]\<close>
\<close>

definition name_matches :: "string \<Rightarrow> pyval \<Rightarrow> bool" where
  "name_matches workflow_name w =
     (case getattr w ''name'' of
        Inl e \<Rightarrow> False
      | Inr n \<Rightarrow> py_eq_str n workflow_name)"

definition metadata_id :: "pyval \<Rightarrow> exception + pyval" where
  "metadata_id w =
     (case getattr w ''metadata'' of
        Inl e \<Rightarrow> Inl e
      | Inr m \<Rightarrow> getattr m ''id'')"

fun matching_ids :: "string \<Rightarrow> pyval list \<Rightarrow> exception + pyval list" where
  "matching_ids workflow_name [] = Inr []"
| "matching_ids workflow_name (w # ws) =
     (if name_matches workflow_name w
      then (case metadata_id w of
              Inl e \<Rightarrow> Inl e
            | Inr i \<Rightarrow>
                (case matching_ids workflow_name ws of
                   Inl e \<Rightarrow> Inl e
                 | Inr ids \<Rightarrow> Inr (i # ids)))
      else matching_ids workflow_name ws)"

text \<open>
  Lines 111-119 of \<^verbatim>\<open>list_runs\<close> and 181-188 of \<^verbatim>\<open>get_queue_metrics\<close>, which are the
  same text: \<^verbatim>\<open>if workflow_name:\<close> fetch all workflows, collect the ids of the matching
  ones, and \<^verbatim>\<open>if workflow_ids: params["workflow_ids"] = workflow_ids\<close>.
\<close>

definition add_workflow_filter ::
  "nat \<times> client \<Rightarrow> string option \<Rightarrow> params \<Rightarrow> state \<Rightarrow> (exception + params) \<times> state" where
  "add_workflow_filter hatchet workflow_name p st =
     (case workflow_name of
        None \<Rightarrow> (Inr p, st)
      | Some name \<Rightarrow>
          if name = [] then (Inr p, st)
          else
            (case aio_workflows_list hatchet st of
               (Inl e, st1) \<Rightarrow> (Inl e, st1)
             | (Inr workflows, st1) \<Rightarrow>
                 (case matching_ids name (rows_or_empty workflows) of
                    Inl e \<Rightarrow> (Inl e, st1)
                  | Inr ids \<Rightarrow>
                      if ids \<noteq> [] then (Inr (p\<lparr>workflow_ids := Some ids\<rparr>), st1)
                      else (Inr p, st1))))"

section \<open>The tools\<close>

text \<open>
  Each tool is a \<^verbatim>\<open>try\<close> block and its \<^verbatim>\<open>except Exception as e\<close> handler. The block is
  the function named \<open>_try\<close>; it ends with the value returned or the exception raised.
  A tool ends with the value it returns (\<open>Inr\<close>) or the exception it raises to its caller
  (\<open>Inl\<close>): the handler returns a value for an instance of \<^verbatim>\<open>Exception\<close>, and any other
  exception passes through it. \<open>now\<close> is the clock reading of the call.
\<close>

definition error_dict :: "exception \<Rightarrow> jdict" where
  "error_dict e = [''error'' \<mapsto> JVal (PStr (exc_str e))]"

definition error_dict_run_id :: "exception \<Rightarrow> string \<Rightarrow> jdict" where
  "error_dict_run_id e run_id =
     [''error'' \<mapsto> JVal (PStr (exc_str e)), ''run_id'' \<mapsto> JVal (PStr run_id)]"

text \<open>\<^verbatim>\<open>except Exception as e: return [{"error": str(e)}]\<close>\<close>

definition caught_list :: "exception \<Rightarrow> exception + jdict list" where
  "caught_list e = (if isinstance_Exception e then Inr [error_dict e] else Inl e)"

text \<open>\<^verbatim>\<open>except Exception as e: return {"error": str(e), "run_id": run_id}\<close>\<close>

definition caught_run_id :: "exception \<Rightarrow> string \<Rightarrow> exception + jdict" where
  "caught_run_id e run_id =
     (if isinstance_Exception e then Inr (error_dict_run_id e run_id) else Inl e)"

text \<open>\<^verbatim>\<open>except Exception as e: return {"error": str(e)}\<close>\<close>

definition caught_dict :: "exception \<Rightarrow> exception + jdict" where
  "caught_dict e = (if isinstance_Exception e then Inr (error_dict e) else Inl e)"

text \<open>\<^verbatim>\<open>list_workflows\<close>, lines 67-79.\<close>

definition list_workflows_try ::
  "(nat \<Rightarrow> exception + client) \<Rightarrow> state \<Rightarrow> (exception + jdict list) \<times> state" where
  "list_workflows_try Hatchet st =
     (case get_hatchet_client Hatchet st of
        (Inl e, st1) \<Rightarrow> (Inl e, st1)
      | (Inr hatchet, st1) \<Rightarrow>
          (case aio_workflows_list hatchet st1 of
             (Inl e, st2) \<Rightarrow> (Inl e, st2)
           | (Inr workflows, st2) \<Rightarrow>
               (Inr (map serialize_workflow (rows_or_empty workflows)), st2)))"

definition list_workflows ::
  "(nat \<Rightarrow> exception + client) \<Rightarrow> state \<Rightarrow> (exception + jdict list) \<times> state" where
  "list_workflows Hatchet st =
     (case list_workflows_try Hatchet st of
        (Inr result, st1) \<Rightarrow> (Inr result, st1)
      | (Inl e, st1) \<Rightarrow> (caught_list e, st1))"

text \<open>\<^verbatim>\<open>list_runs\<close>, lines 82-124. The defaults of the signature are 24 hours and 50 runs.\<close>

definition default_since_hours :: int where
  "default_since_hours = 24"

definition default_limit :: int where
  "default_limit = 50"

definition list_runs_try ::
  "(nat \<Rightarrow> exception + client) \<Rightarrow> int \<Rightarrow> string option \<Rightarrow> string option \<Rightarrow> int \<Rightarrow> int
     \<Rightarrow> state \<Rightarrow> (exception + jdict list) \<times> state" where
  "list_runs_try Hatchet now workflow_name status since_hours lim st =
     (case get_hatchet_client Hatchet st of
        (Inl e, st1) \<Rightarrow> (Inl e, st1)
      | (Inr hatchet, st1) \<Rightarrow>
          (case hours_before now since_hours of
             Inl e \<Rightarrow> (Inl e, st1)
           | Inr t \<Rightarrow>
               (case add_workflow_filter hatchet workflow_name
                       (add_status_filter status
                          \<lparr>since = t, limit = lim, statuses = None, workflow_ids = None,
                           additional_metadata = None\<rparr>) st1 of
                  (Inl e, st2) \<Rightarrow> (Inl e, st2)
                | (Inr p, st2) \<Rightarrow>
                    (case aio_runs_list hatchet p st2 of
                       (Inl e, st3) \<Rightarrow> (Inl e, st3)
                     | (Inr runs, st3) \<Rightarrow>
                         (map_exc serialize_run (rows_or_empty runs), st3)))))"

definition list_runs ::
  "(nat \<Rightarrow> exception + client) \<Rightarrow> int \<Rightarrow> string option \<Rightarrow> string option \<Rightarrow> int \<Rightarrow> int
     \<Rightarrow> state \<Rightarrow> (exception + jdict list) \<times> state" where
  "list_runs Hatchet now workflow_name status since_hours lim st =
     (case list_runs_try Hatchet now workflow_name status since_hours lim st of
        (Inr result, st1) \<Rightarrow> (Inr result, st1)
      | (Inl e, st1) \<Rightarrow> (caught_list e, st1))"

text \<open>\<^verbatim>\<open>get_run_status\<close>, lines 127-142.\<close>

definition get_run_status_try ::
  "(nat \<Rightarrow> exception + client) \<Rightarrow> string \<Rightarrow> state \<Rightarrow> (exception + jdict) \<times> state" where
  "get_run_status_try Hatchet run_id st =
     (case get_hatchet_client Hatchet st of
        (Inl e, st1) \<Rightarrow> (Inl e, st1)
      | (Inr hatchet, st1) \<Rightarrow>
          (case aio_runs_get hatchet run_id st1 of
             (Inl e, st2) \<Rightarrow> (Inl e, st2)
           | (Inr status, st2) \<Rightarrow> (serialize_run status, st2)))"

definition get_run_status ::
  "(nat \<Rightarrow> exception + client) \<Rightarrow> string \<Rightarrow> state \<Rightarrow> (exception + jdict) \<times> state" where
  "get_run_status Hatchet run_id st =
     (case get_run_status_try Hatchet run_id st of
        (Inr result, st1) \<Rightarrow> (Inr result, st1)
      | (Inl e, st1) \<Rightarrow> (caught_run_id e run_id, st1))"

text \<open>\<^verbatim>\<open>get_run_result\<close>, lines 145-160.\<close>

definition get_run_result_try ::
  "(nat \<Rightarrow> exception + client) \<Rightarrow> string \<Rightarrow> state \<Rightarrow> (exception + jdict) \<times> state" where
  "get_run_result_try Hatchet run_id st =
     (case get_hatchet_client Hatchet st of
        (Inl e, st1) \<Rightarrow> (Inl e, st1)
      | (Inr hatchet, st1) \<Rightarrow>
          (case aio_runs_get_result hatchet run_id st1 of
             (Inl e, st2) \<Rightarrow> (Inl e, st2)
           | (Inr result, st2) \<Rightarrow>
               (Inr [''run_id'' \<mapsto> JVal (PStr run_id), ''result'' \<mapsto> JVal result], st2)))"

definition get_run_result ::
  "(nat \<Rightarrow> exception + client) \<Rightarrow> string \<Rightarrow> state \<Rightarrow> (exception + jdict) \<times> state" where
  "get_run_result Hatchet run_id st =
     (case get_run_result_try Hatchet run_id st of
        (Inr result, st1) \<Rightarrow> (Inr result, st1)
      | (Inl e, st1) \<Rightarrow> (caught_run_id e run_id, st1))"

text \<open>
  \<^verbatim>\<open>get_queue_metrics\<close>, lines 163-215. First the counting loop of lines 193-207.
  \<^verbatim>\<open>counts[k] += 1\<close> raises \<^verbatim>\<open>KeyError\<close> on a key the dict does not have.
\<close>

definition initial_counts :: "string \<rightharpoonup> int" where
  "initial_counts =
     [''queued'' \<mapsto> 0, ''running'' \<mapsto> 0, ''completed'' \<mapsto> 0, ''failed'' \<mapsto> 0,
      ''cancelled'' \<mapsto> 0, ''total'' \<mapsto> 0]"

definition dict_incr :: "(string \<rightharpoonup> int) \<Rightarrow> string \<Rightarrow> exception + (string \<rightharpoonup> int)" where
  "dict_incr counts k =
     (case counts k of
        None \<Rightarrow> Inl (KeyError k)
      | Some n \<Rightarrow> Inr (counts(k \<mapsto> n + 1)))"

text \<open>
  Line 205:
  \<^verbatim>\<open>run.status.value.lower() if hasattr(run.status, "value") else str(run.status).lower()\<close>
\<close>

definition status_name_of :: "pyval \<Rightarrow> exception + string" where
  "status_name_of status =
     (if hasattr status ''value''
      then (case getattr status ''value'' of
              Inl e \<Rightarrow> Inl e
            | Inr v \<Rightarrow> py_lower v)
      else Inr (lower (py_str status)))"

definition count_run :: "(string \<rightharpoonup> int) \<Rightarrow> pyval \<Rightarrow> exception + (string \<rightharpoonup> int)" where
  "count_run counts run =
     (case dict_incr counts ''total'' of
        Inl e \<Rightarrow> Inl e
      | Inr counts1 \<Rightarrow>
          if hasattr run ''status''
          then (case getattr run ''status'' of
                  Inl e \<Rightarrow> Inl e
                | Inr status \<Rightarrow>
                    (case status_name_of status of
                       Inl e \<Rightarrow> Inl e
                     | Inr status_name \<Rightarrow>
                         if status_name \<in> dom counts1 then dict_incr counts1 status_name
                         else Inr counts1))
          else Inr counts1)"

fun count_runs :: "(string \<rightharpoonup> int) \<Rightarrow> pyval list \<Rightarrow> exception + (string \<rightharpoonup> int)" where
  "count_runs counts [] = Inr counts"
| "count_runs counts (run # runs) =
     (case count_run counts run of
        Inl e \<Rightarrow> Inl e
      | Inr counts1 \<Rightarrow> count_runs counts1 runs)"

text \<open>\<^verbatim>\<open>workflow_name or "all"\<close>\<close>

definition name_or_all :: "string option \<Rightarrow> string" where
  "name_or_all workflow_name =
     (case workflow_name of
        None \<Rightarrow> ''all''
      | Some name \<Rightarrow> if name = [] then ''all'' else name)"

definition get_queue_metrics_try ::
  "(nat \<Rightarrow> exception + client) \<Rightarrow> int \<Rightarrow> string option \<Rightarrow> state
     \<Rightarrow> (exception + jdict) \<times> state" where
  "get_queue_metrics_try Hatchet now workflow_name st =
     (case get_hatchet_client Hatchet st of
        (Inl e, st1) \<Rightarrow> (Inl e, st1)
      | (Inr hatchet, st1) \<Rightarrow>
          (case hours_before now 24 of
             Inl e \<Rightarrow> (Inl e, st1)
           | Inr t \<Rightarrow>
               (case add_workflow_filter hatchet workflow_name
                       \<lparr>since = t, limit = 1000, statuses = None, workflow_ids = None,
                        additional_metadata = None\<rparr> st1 of
                  (Inl e, st2) \<Rightarrow> (Inl e, st2)
                | (Inr p, st2) \<Rightarrow>
                    (case aio_runs_list hatchet p st2 of
                       (Inl e, st3) \<Rightarrow> (Inl e, st3)
                     | (Inr runs, st3) \<Rightarrow>
                         (case count_runs initial_counts (rows_or_empty runs) of
                            Inl e \<Rightarrow> (Inl e, st3)
                          | Inr counts \<Rightarrow>
                              (Inr [''workflow_name'' \<mapsto> JVal (PStr (name_or_all workflow_name)),
                                    ''time_range_hours'' \<mapsto> JInt 24,
                                    ''counts'' \<mapsto> JIntDict counts], st3))))))"

definition get_queue_metrics ::
  "(nat \<Rightarrow> exception + client) \<Rightarrow> int \<Rightarrow> string option \<Rightarrow> state
     \<Rightarrow> (exception + jdict) \<times> state" where
  "get_queue_metrics Hatchet now workflow_name st =
     (case get_queue_metrics_try Hatchet now workflow_name st of
        (Inr result, st1) \<Rightarrow> (Inr result, st1)
      | (Inl e, st1) \<Rightarrow> (caught_dict e, st1))"

text \<open>\<^verbatim>\<open>search_runs\<close>, lines 218-259, with the same defaults as \<^verbatim>\<open>list_runs\<close>.\<close>

definition search_runs_try ::
  "(nat \<Rightarrow> exception + client) \<Rightarrow> int \<Rightarrow> string \<Rightarrow> string \<Rightarrow> string option \<Rightarrow> int \<Rightarrow> int
     \<Rightarrow> state \<Rightarrow> (exception + jdict list) \<times> state" where
  "search_runs_try Hatchet now metadata_key metadata_value status since_hours lim st =
     (case get_hatchet_client Hatchet st of
        (Inl e, st1) \<Rightarrow> (Inl e, st1)
      | (Inr hatchet, st1) \<Rightarrow>
          (case hours_before now since_hours of
             Inl e \<Rightarrow> (Inl e, st1)
           | Inr t \<Rightarrow>
               (case aio_runs_list hatchet
                       (add_status_filter status
                          \<lparr>since = t, limit = lim, statuses = None, workflow_ids = None,
                           additional_metadata = Some [metadata_key \<mapsto> metadata_value]\<rparr>) st1 of
                  (Inl e, st2) \<Rightarrow> (Inl e, st2)
                | (Inr runs, st2) \<Rightarrow>
                    (map_exc serialize_run (rows_or_empty runs), st2))))"

definition search_runs ::
  "(nat \<Rightarrow> exception + client) \<Rightarrow> int \<Rightarrow> string \<Rightarrow> string \<Rightarrow> string option \<Rightarrow> int \<Rightarrow> int
     \<Rightarrow> state \<Rightarrow> (exception + jdict list) \<times> state" where
  "search_runs Hatchet now metadata_key metadata_value status since_hours lim st =
     (case search_runs_try Hatchet now metadata_key metadata_value status since_hours lim st of
        (Inr result, st1) \<Rightarrow> (Inr result, st1)
      | (Inl e, st1) \<Rightarrow> (caught_list e, st1))"

text \<open>The requests a call sent: those of the state after it that the state before had not.\<close>

definition sent :: "state \<Rightarrow> state \<Rightarrow> request list" where
  "sent st st1 = drop (length (requests st)) (requests st1)"

section \<open>Repeated calls and example inputs\<close>

text \<open>\<open>n\<close> calls of \<^verbatim>\<open>get_hatchet_client()\<close> in sequence: what each returned or raised.\<close>

fun call_times ::
  "(nat \<Rightarrow> exception + client) \<Rightarrow> nat \<Rightarrow> state
     \<Rightarrow> (exception + nat \<times> client) list \<times> state" where
  "call_times Hatchet 0 st = ([], st)"
| "call_times Hatchet (Suc n) st =
     (case get_hatchet_client Hatchet st of
        (r, st1) \<Rightarrow> (case call_times Hatchet n st1 of (rs, st2) \<Rightarrow> (r # rs, st2)))"

text \<open>A client that gives every request of a kind the same answer.\<close>

definition fixed_client ::
  "exception + pyval list option \<Rightarrow> exception + pyval list option \<Rightarrow> exception + pyval
     \<Rightarrow> exception + pyval \<Rightarrow> client" where
  "fixed_client workflows runs run result =
     \<lparr>workflows_aio_list = workflows, runs_aio_list = (\<lambda>p. runs),
      runs_aio_get = (\<lambda>run_id. run), runs_aio_get_result = (\<lambda>run_id. result)\<rparr>"

text \<open>A constructor that always returns \<open>c\<close>, and one that raises on its first call.\<close>

definition ready :: "client \<Rightarrow> nat \<Rightarrow> exception + client" where
  "ready c n = Inr c"

definition second_try :: "client \<Rightarrow> nat \<Rightarrow> exception + client" where
  "second_try c n = (if n = 0 then Inl (Error ''no token'') else Inr c)"

definition example_run :: pyval where
  "example_run = PObj ''V1TaskSummary'' ''run-1''
     [(''metadata'', PObj ''APIResourceMeta'' ''meta'' [(''id'', PStr ''run-1'')]),
      (''status'', PEnum RUNNING)]"

definition one_run_client :: client where
  "one_run_client = fixed_client (Inr None) (Inr (Some [example_run]))
     (Inl (Error ''not found'')) (Inl (Error ''not found''))"

text \<open>A clock reading, in the year 2025.\<close>

definition example_now :: int where
  "example_now = 63900000000000000"

definition example_workflow :: pyval where
  "example_workflow = PObj ''Workflow'' ''wf''
     [(''metadata'', PObj ''APIResourceMeta'' ''meta'' [(''id'', PStr ''wf-1'')]),
      (''name'', PStr ''QA-Workflow'')]"

definition workflow_client :: client where
  "workflow_client = fixed_client (Inr (Some [example_workflow])) (Inr (Some [example_run]))
     (Inl (Error ''not found'')) (Inl (Error ''not found''))"

text \<open>A client whose calls are cancelled while the tool awaits them.\<close>

definition cancelled_client :: client where
  "cancelled_client = fixed_client (Inl (CancelledError [])) (Inl (CancelledError []))
     (Inl (CancelledError [])) (Inl (CancelledError []))"


section \<open>The counts, stated without the loop\<close>

text \<open>
  What lines 204-205 read from a run: nothing when it has no \<^verbatim>\<open>status\<close>, else its lowered
  status name, or the exception that reading it raises.
\<close>

definition normalized_status :: "pyval \<Rightarrow> (exception + string) option" where
  "normalized_status run =
     (case getattr run ''status'' of
        Inl e \<Rightarrow> None
      | Inr status \<Rightarrow> Some (status_name_of status))"

text \<open>The number of runs whose lowered status name is \<open>k\<close>.\<close>

definition hits :: "string \<Rightarrow> pyval list \<Rightarrow> int" where
  "hits k runs = int (length (filter (\<lambda>run. normalized_status run = Some (Inr k)) runs))"

text \<open>
  The counts as the specification words them: one counter for each of the five status
  names, and total for all runs. The loop adds to \<^verbatim>\<open>counts[status_name]\<close> for any key of the
  dict, and total is one of them: a run whose status reads \<^verbatim>\<open>total\<close> is counted twice there.
\<close>

definition tally :: "pyval list \<Rightarrow> (string \<rightharpoonup> int)" where
  "tally runs =
     [''queued'' \<mapsto> hits ''queued'' runs,
      ''running'' \<mapsto> hits ''running'' runs,
      ''completed'' \<mapsto> hits ''completed'' runs,
      ''failed'' \<mapsto> hits ''failed'' runs,
      ''cancelled'' \<mapsto> hits ''cancelled'' runs,
      ''total'' \<mapsto> int (length runs) + hits ''total'' runs]"

text \<open>The same starting from any counts, for the induction over the loop.\<close>

definition add_run :: "(string \<rightharpoonup> int) \<Rightarrow> pyval list \<Rightarrow> (string \<rightharpoonup> int)" where
  "add_run c runs =
     (\<lambda>k. case c k of
            None \<Rightarrow> None
          | Some n \<Rightarrow> Some (n + hits k runs + (if k = ''total'' then int (length runs) else 0)))"

section \<open>Facts about strings and attributes\<close>

lemma lower_char_fix: "c \<in> set ascii_lower \<Longrightarrow> lower_char c = c"
  unfolding ascii_lower_def set_simps insert_iff empty_iff
  by (elim disjE FalseE) (simp_all add: lower_char_def ascii_upper_def ascii_lower_def)

lemma lower_upper_char: "c \<in> set ascii_lower \<Longrightarrow> lower_char (upper_char c) = c"
  unfolding ascii_lower_def set_simps insert_iff empty_iff
  by (elim disjE FalseE)
    (simp_all add: lower_char_def upper_char_def ascii_upper_def ascii_lower_def)

lemma lower_case_variant:
  assumes "case_variant s name" and "set name \<subseteq> set ascii_lower"
  shows "lower s = name"
  using assms unfolding lower_def case_variant_def
  by (induction rule: list_all2_induct) (auto simp: lower_char_fix lower_upper_char)

lemma case_variant_nonempty: "case_variant s name \<Longrightarrow> name \<noteq> [] \<Longrightarrow> s \<noteq> []"
  by (auto simp: case_variant_def)

lemma lower_names:
  "case_variant s ''queued'' \<Longrightarrow> lower s = ''queued''"
  "case_variant s ''running'' \<Longrightarrow> lower s = ''running''"
  "case_variant s ''completed'' \<Longrightarrow> lower s = ''completed''"
  "case_variant s ''succeeded'' \<Longrightarrow> lower s = ''succeeded''"
  "case_variant s ''failed'' \<Longrightarrow> lower s = ''failed''"
  "case_variant s ''cancelled'' \<Longrightarrow> lower s = ''cancelled''"
  by (erule lower_case_variant, simp add: ascii_lower_def)+

lemma STATUS_MAP_entries:
  "STATUS_MAP ''queued'' = Some QUEUED" "STATUS_MAP ''running'' = Some RUNNING"
  "STATUS_MAP ''completed'' = Some COMPLETED" "STATUS_MAP ''succeeded'' = Some COMPLETED"
  "STATUS_MAP ''failed'' = Some FAILED" "STATUS_MAP ''cancelled'' = Some CANCELLED"
  by (simp_all add: STATUS_MAP_def)

lemma status_filter_recognized:
  assumes "s \<noteq> []" and "STATUS_MAP (lower s) = Some code"
  shows "add_status_filter (Some s) p = p\<lparr>statuses := Some [code]\<rparr>"
  using assms by (simp add: add_status_filter_def dom_def)

lemma getattr_PStr: "getattr (PStr s) a = Inl (AttributeError ''str'' a)"
  by (simp add: getattr_def)

lemma absent_attr:
  "\<not> hasattr v a \<Longrightarrow> attr_or v a d = d \<and> str_attr_or_none v a = PNone"
  by (simp add: hasattr_def attr_or_def str_attr_or_none_def split: sum.splits)

lemma empty_dict_no_id: "attr_or empty_dict ''id'' d = d"
  by (simp add: attr_or_def getattr_def empty_dict_def)

section \<open>The run flattener and the status of a run\<close>

lemma serialize_run_enum_status:
  "getattr run ''status'' = Inr (PEnum e) \<Longrightarrow>
     \<exists>d. serialize_run run = Inr d \<and> d ''status'' = Some (JVal (PStr (status_value e)))"
  by (simp add: serialize_run_def hasattr_def getattr_def Let_def)

lemma serialize_run_no_status:
  "\<not> hasattr run ''status'' \<Longrightarrow>
     \<exists>d. serialize_run run = Inr d \<and> d ''status'' = Some (JVal PNone)"
  by (simp add: serialize_run_def Let_def)

text \<open>
  C1. The specification has the flattener take the \<^verbatim>\<open>.value\<close> of an enumerated status,
  use a status that is a plain string as it is, and give null for a run without status.
  The first and the last hold (\<open>serialize_run_enum_status\<close>, \<open>serialize_run_no_status\<close>).
  The middle one does not: line 48 reads \<^verbatim>\<open>run.status.value\<close> without asking whether the
  status has a \<^verbatim>\<open>value\<close>, so a run whose status is a plain string makes
  \<^verbatim>\<open>_serialize_run\<close> raise AttributeError, while line 205 of \<^verbatim>\<open>get_queue_metrics\<close> asks
  first and lowers the string itself.
\<close>

theorem serialize_run_string_status_raises:
  "getattr run ''status'' = Inr (PStr s) \<Longrightarrow>
     serialize_run run = Inl (AttributeError ''str'' ''value'') \<and>
     status_name_of (PStr s) = Inr (lower s)"
  by (simp add: serialize_run_def hasattr_def getattr_PStr status_name_of_def)

theorem serialize_run_string_status_raises_witness:
  "getattr (PObj ''V1TaskSummary'' ''run-1'' [(''status'', PStr ''RUNNING'')]) ''status''
     = Inr (PStr ''RUNNING'') \<and>
   serialize_run (PObj ''V1TaskSummary'' ''run-1'' [(''status'', PStr ''RUNNING'')])
     = Inl (AttributeError ''str'' ''value'') \<and>
   status_name_of (PStr ''RUNNING'') = Inr ''running''"
proof -
  have g: "getattr (PObj ''V1TaskSummary'' ''run-1'' [(''status'', PStr ''RUNNING'')]) ''status''
             = Inr (PStr ''RUNNING'')"
    by (simp add: getattr_def)
  have l: "lower ''RUNNING'' = ''running''"
    by (simp add: lower_def lower_char_def ascii_upper_def ascii_lower_def)
  show ?thesis
    using g serialize_run_string_status_raises [OF g] by (simp add: l)
qed

text \<open>
  C5. A run object with none of the attributes \<^verbatim>\<open>metadata\<close>, \<^verbatim>\<open>workflow_id\<close>,
  \<^verbatim>\<open>workflow_name\<close>, \<^verbatim>\<open>status\<close>, \<^verbatim>\<open>created_at\<close>, \<^verbatim>\<open>started_at\<close>, \<^verbatim>\<open>finished_at\<close>,
  \<^verbatim>\<open>additional_metadata\<close> is flattened, without an exception, to the record whose id is
  the string rendering of the object, whose additional_metadata is the empty dict and
  whose other six entries are None.
\<close>

theorem serialize_run_no_optional_fields:
  assumes "\<forall>a \<in> set [''metadata'', ''workflow_id'', ''workflow_name'', ''status'',
             ''created_at'', ''started_at'', ''finished_at'', ''additional_metadata''].
             \<not> hasattr run a"
  shows "serialize_run run =
     Inr [''id'' \<mapsto> JVal (PStr (py_str run)),
          ''workflow_id'' \<mapsto> JVal PNone,
          ''workflow_name'' \<mapsto> JVal PNone,
          ''status'' \<mapsto> JVal PNone,
          ''created_at'' \<mapsto> JVal PNone,
          ''started_at'' \<mapsto> JVal PNone,
          ''finished_at'' \<mapsto> JVal PNone,
          ''additional_metadata'' \<mapsto> JVal empty_dict]"
proof -
  from assms have h: "\<not> hasattr run ''metadata''" "\<not> hasattr run ''workflow_id''"
    "\<not> hasattr run ''workflow_name''" "\<not> hasattr run ''status''"
    "\<not> hasattr run ''created_at''" "\<not> hasattr run ''started_at''"
    "\<not> hasattr run ''finished_at''" "\<not> hasattr run ''additional_metadata''"
    by simp_all
  show ?thesis
    unfolding serialize_run_def Let_def using h by (simp add: absent_attr empty_dict_no_id)
qed

theorem serialize_run_no_optional_fields_witness:
  "serialize_run (PObj ''object'' ''<object object at 0x7f00>'' []) =
     Inr [''id'' \<mapsto> JVal (PStr ''<object object at 0x7f00>''),
          ''workflow_id'' \<mapsto> JVal PNone,
          ''workflow_name'' \<mapsto> JVal PNone,
          ''status'' \<mapsto> JVal PNone,
          ''created_at'' \<mapsto> JVal PNone,
          ''started_at'' \<mapsto> JVal PNone,
          ''finished_at'' \<mapsto> JVal PNone,
          ''additional_metadata'' \<mapsto> JVal (PObj ''dict'' ''{}'' [])]"
proof -
  have h: "\<forall>a \<in> set [''metadata'', ''workflow_id'', ''workflow_name'', ''status'',
             ''created_at'', ''started_at'', ''finished_at'', ''additional_metadata''].
             \<not> hasattr (PObj ''object'' ''<object object at 0x7f00>'' []) a"
    by (simp add: hasattr_def getattr_def)
  show ?thesis
    using serialize_run_no_optional_fields [OF h] by (simp only: py_str.simps empty_dict_def)
qed

section \<open>The status names\<close>

text \<open>
  C2. A string that is one of the names queued, running, completed, succeeded, failed,
  cancelled in any mixture of upper and lower case is found in \<^verbatim>\<open>STATUS_MAP\<close> after
  \<^verbatim>\<open>lower()\<close>, with the code of that name, and that code becomes the status filter;
  a spelling of completed and a spelling of succeeded give the same code.
\<close>

theorem status_names_any_case:
  "(case_variant s ''queued'' \<longrightarrow>
      STATUS_MAP (lower s) = Some QUEUED \<and>
      add_status_filter (Some s) p = p\<lparr>statuses := Some [QUEUED]\<rparr>) \<and>
   (case_variant s ''running'' \<longrightarrow>
      STATUS_MAP (lower s) = Some RUNNING \<and>
      add_status_filter (Some s) p = p\<lparr>statuses := Some [RUNNING]\<rparr>) \<and>
   (case_variant s ''completed'' \<longrightarrow>
      STATUS_MAP (lower s) = Some COMPLETED \<and>
      add_status_filter (Some s) p = p\<lparr>statuses := Some [COMPLETED]\<rparr>) \<and>
   (case_variant s ''succeeded'' \<longrightarrow>
      STATUS_MAP (lower s) = Some COMPLETED \<and>
      add_status_filter (Some s) p = p\<lparr>statuses := Some [COMPLETED]\<rparr>) \<and>
   (case_variant s ''failed'' \<longrightarrow>
      STATUS_MAP (lower s) = Some FAILED \<and>
      add_status_filter (Some s) p = p\<lparr>statuses := Some [FAILED]\<rparr>) \<and>
   (case_variant s ''cancelled'' \<longrightarrow>
      STATUS_MAP (lower s) = Some CANCELLED \<and>
      add_status_filter (Some s) p = p\<lparr>statuses := Some [CANCELLED]\<rparr>) \<and>
   (case_variant s ''completed'' \<and> case_variant t ''succeeded'' \<longrightarrow>
      STATUS_MAP (lower s) = STATUS_MAP (lower t))"
proof -
  have f: "add_status_filter (Some s) p = p\<lparr>statuses := Some [code]\<rparr>"
    if "case_variant s name" "name \<noteq> []" "STATUS_MAP (lower s) = Some code" for name code
    using that by (intro status_filter_recognized case_variant_nonempty [of s name])
  show ?thesis
    by (intro conjI impI; (elim conjE)?)
      (simp_all add: lower_names STATUS_MAP_entries f [where name = "lower s"]
         case_variant_nonempty)
qed

theorem status_names_any_case_witness:
  "case_variant ''QUEUED'' ''queued'' \<and> STATUS_MAP (lower ''QUEUED'') = Some QUEUED \<and>
   case_variant ''Running'' ''running'' \<and> STATUS_MAP (lower ''Running'') = Some RUNNING \<and>
   case_variant ''FaILed'' ''failed'' \<and> STATUS_MAP (lower ''FaILed'') = Some FAILED \<and>
   case_variant ''cancelleD'' ''cancelled'' \<and>
   STATUS_MAP (lower ''cancelleD'') = Some CANCELLED \<and>
   case_variant ''comPLETed'' ''completed'' \<and> case_variant ''SucceedeD'' ''succeeded'' \<and>
   STATUS_MAP (lower ''comPLETed'') = Some COMPLETED \<and>
   STATUS_MAP (lower ''comPLETed'') = STATUS_MAP (lower ''SucceedeD'')"
proof -
  have v: "case_variant ''QUEUED'' ''queued''" "case_variant ''Running'' ''running''"
    "case_variant ''FaILed'' ''failed''" "case_variant ''cancelleD'' ''cancelled''"
    "case_variant ''comPLETed'' ''completed''" "case_variant ''SucceedeD'' ''succeeded''"
    by (simp_all add: case_variant_def upper_char_def ascii_lower_def ascii_upper_def)
  note t = status_names_any_case
  note a =
    t [THEN conjunct1, rule_format, THEN conjunct1, OF v(1)]
    t [THEN conjunct2, THEN conjunct1, rule_format, THEN conjunct1, OF v(2)]
    t [THEN conjunct2, THEN conjunct2, THEN conjunct2, THEN conjunct2, THEN conjunct1,
       rule_format, THEN conjunct1, OF v(3)]
    t [THEN conjunct2, THEN conjunct2, THEN conjunct2, THEN conjunct2, THEN conjunct2,
       THEN conjunct1, rule_format, THEN conjunct1, OF v(4)]
    t [THEN conjunct2, THEN conjunct2, THEN conjunct1, rule_format, THEN conjunct1, OF v(5)]
    t [THEN conjunct2, THEN conjunct2, THEN conjunct2, THEN conjunct2, THEN conjunct2,
       THEN conjunct2, rule_format, OF conjI [OF v(5) v(6)]]
  show ?thesis
    by (intro conjI; rule v a)
qed

section \<open>The cached client\<close>

lemma get_hatchet_client_cached:
  "cache st = Some h \<Longrightarrow> get_hatchet_client H st = (Inr h, st)"
  by (simp add: get_hatchet_client_def)

lemma get_hatchet_client_success:
  "get_hatchet_client H st = (Inr h, st1) \<Longrightarrow> cache st1 = Some h"
  by (auto simp: get_hatchet_client_def split: option.splits sum.splits)

lemma get_hatchet_client_failure:
  "get_hatchet_client H st = (Inl e, st1) \<Longrightarrow>
     cache st = None \<and> cache st1 = None \<and> constructed st1 = constructed st"
  by (auto simp: get_hatchet_client_def split: option.splits sum.splits)

lemma get_hatchet_client_constructed:
  "get_hatchet_client H st = (Inr h, st1) \<Longrightarrow>
     constructed st1 = (if cache st = None then constructed st + 1 else constructed st)"
  by (auto simp: get_hatchet_client_def split: option.splits sum.splits)

lemma get_hatchet_client_requests:
  "get_hatchet_client H st = (r, st1) \<Longrightarrow> requests st1 = requests st"
  by (auto simp: get_hatchet_client_def split: option.splits sum.splits)

lemma call_times_cached:
  "cache st = Some h \<Longrightarrow> call_times H n st = (replicate n (Inr h), st)"
  by (induction n) (simp_all add: get_hatchet_client_cached)

lemma call_times_Suc:
  "get_hatchet_client H st = (r, st1) \<Longrightarrow>
     fst (call_times H (Suc n) st) = r # fst (call_times H n st1) \<and>
     snd (call_times H (Suc n) st) = snd (call_times H n st1)"
  by (simp split: prod.splits)

lemma call_times_fresh:
  "cache st = None \<Longrightarrow> constructed st = 0 \<Longrightarrow>
     constructed (snd (call_times H n st)) \<le> 1 \<and>
     (\<forall>h h'. Inr h \<in> set (fst (call_times H n st)) \<and> Inr h' \<in> set (fst (call_times H n st))
        \<longrightarrow> h = h')"
proof (induction n arbitrary: st)
  case 0
  then show ?case by simp
next
  case (Suc n)
  obtain r st1 where g: "get_hatchet_client H st = (r, st1)"
    by (cases "get_hatchet_client H st")
  show ?case
  proof (cases r)
    case (Inl e)
    with g Suc.prems have "cache st1 = None" "constructed st1 = 0"
      using get_hatchet_client_failure [of H st e st1] by simp_all
    from Suc.IH [OF this] show ?thesis
      using call_times_Suc [OF g, of n] Inl by (simp del: call_times.simps)
  next
    case (Inr h)
    with g have c: "cache st1 = Some h"
      using get_hatchet_client_success by simp
    from g Inr Suc.prems have "constructed st1 = 1"
      using get_hatchet_client_constructed [of H st h st1] by simp
    then show ?thesis
      using call_times_Suc [OF g, of n] Inr
      by (auto simp del: call_times.simps simp add: call_times_cached [OF c])
  qed
qed

text \<open>
  C8. After a call of \<^verbatim>\<open>get_hatchet_client()\<close> that returned, the next call returns the
  identical handle and leaves the state as it is: nothing is constructed again. At import
  nothing is cached and the constructor has not run; in any number of calls from there the
  constructor returns at most once, and all the calls that return give the same handle.
  A call that finds nothing cached and returns has run the constructor once, and cached
  what it returns.
\<close>

theorem get_hatchet_client_cached_once:
  "(get_hatchet_client Hatchet st = (Inr h, st1) \<longrightarrow>
      get_hatchet_client Hatchet st1 = (Inr h, st1)) \<and>
   cache initial_state = None \<and> attempts initial_state = 0 \<and>
   constructed initial_state = 0 \<and>
   constructed (snd (call_times Hatchet n initial_state)) \<le> 1 \<and>
   (\<forall>a b. Inr a \<in> set (fst (call_times Hatchet n initial_state)) \<and>
          Inr b \<in> set (fst (call_times Hatchet n initial_state)) \<longrightarrow> a = b) \<and>
   (cache st = None \<and> get_hatchet_client Hatchet st = (Inr h, st1) \<longrightarrow>
      constructed st1 = constructed st + 1 \<and> cache st1 = Some h)"
proof -
  have k: "constructed st1 = constructed st + 1 \<and> cache st1 = Some h"
    if "cache st = None" "get_hatchet_client Hatchet st = (Inr h, st1)"
    using that get_hatchet_client_constructed [of Hatchet st h st1]
      get_hatchet_client_success [of Hatchet st h st1]
    by simp
  have i: "cache initial_state = None" "constructed initial_state = 0"
    "attempts initial_state = 0"
    by (simp_all add: initial_state_def)
  have "get_hatchet_client Hatchet st1 = (Inr h, st1)"
    if "get_hatchet_client Hatchet st = (Inr h, st1)"
    using that by (intro get_hatchet_client_cached get_hatchet_client_success)
  then show ?thesis
    using call_times_fresh [OF i(1) i(2), of Hatchet n] i k by blast
qed

theorem get_hatchet_client_cached_once_witness:
  "fst (call_times (second_try one_run_client) 3 initial_state)
     = [Inl (Error ''no token''), Inr (1, one_run_client), Inr (1, one_run_client)] \<and>
   constructed (snd (call_times (second_try one_run_client) 3 initial_state)) \<le> 1"
proof -
  have "constructed (snd (call_times (second_try one_run_client) 3 initial_state)) \<le> 1"
    using get_hatchet_client_cached_once [of "second_try one_run_client" _ _ _ 3] by blast
  moreover have "fst (call_times (second_try one_run_client) 3 initial_state)
      = [Inl (Error ''no token''), Inr (1, one_run_client), Inr (1, one_run_client)]"
    by (simp add: numeral_3_eq_3 get_hatchet_client_def second_try_def initial_state_def)
  ultimately show ?thesis by simp
qed

section \<open>The queries of list_runs and search_runs\<close>

lemma sent_append: "requests st1 = requests st @ xs \<Longrightarrow> sent st st1 = xs"
  by (simp add: sent_def)

lemma status_filter_unrecognized:
  "STATUS_MAP (lower s) = None \<Longrightarrow> add_status_filter (Some s) p = p"
  by (simp add: add_status_filter_def dom_def)

lemma status_filter_None: "add_status_filter None p = p"
  by (simp add: add_status_filter_def)

lemma status_filter_fields:
  "since (add_status_filter status p) = since p"
  "limit (add_status_filter status p) = limit p"
  "workflow_ids (add_status_filter status p) = workflow_ids p"
  "additional_metadata (add_status_filter status p) = additional_metadata p"
  by (simp_all add: add_status_filter_def split: option.splits)

lemma add_workflow_filter_result:
  assumes "add_workflow_filter h wn p st = (r, st1)"
  shows "(requests st1 = requests st \<or> requests st1 = requests st @ [WorkflowsList]) \<and>
         (\<forall>q. r = Inr q \<longrightarrow> since q = since p \<and> limit q = limit p \<and> statuses q = statuses p \<and>
                additional_metadata q = additional_metadata p)"
  using assms
  by (auto simp: add_workflow_filter_def aio_workflows_list_def
      split: option.splits if_splits sum.splits)

lemma list_runs_try_sent:
  assumes "RunsList q \<in> set (sent st (snd (list_runs_try H now wn status hrs lim st)))"
  shows "hours_before now hrs = Inr (since q) \<and> limit q = lim \<and>
         statuses q = statuses (add_status_filter status
             \<lparr>since = since q, limit = lim, statuses = None, workflow_ids = None,
              additional_metadata = None\<rparr>) \<and>
         additional_metadata q = None"
proof -
  obtain r st1 where g: "get_hatchet_client H st = (r, st1)"
    by (cases "get_hatchet_client H st")
  note rq = get_hatchet_client_requests [OF g]
  show ?thesis
  proof (cases r)
    case (Inl e)
    with assms g rq show ?thesis by (simp add: list_runs_try_def sent_def)
  next
    case h: (Inr h)
    show ?thesis
    proof (cases "hours_before now hrs")
      case (Inl e)
      with assms g rq h show ?thesis by (simp add: list_runs_try_def sent_def)
    next
      case t: (Inr t)
      let ?p = "add_status_filter status
          \<lparr>since = t, limit = lim, statuses = None, workflow_ids = None,
           additional_metadata = None\<rparr>"
      obtain r2 st2 where w: "add_workflow_filter h wn ?p st1 = (r2, st2)"
        by (cases "add_workflow_filter h wn ?p st1")
      note wr = add_workflow_filter_result [OF w]
      show ?thesis
      proof (cases r2)
        case (Inl e)
        with assms g h t w wr rq show ?thesis
          by (auto simp: list_runs_try_def sent_def)
      next
        case p: (Inr p)
        have "sent st (snd (list_runs_try H now wn status hrs lim st)) = [RunsList p]
            \<or> sent st (snd (list_runs_try H now wn status hrs lim st)) = [WorkflowsList, RunsList p]"
          using g h t w wr rq p
          by (auto simp: list_runs_try_def sent_def aio_runs_list_def split: sum.splits)
        with assms have "q = p" by auto
        with wr p t show ?thesis by (simp add: status_filter_fields)
      qed
    qed
  qed
qed

lemma list_runs_snd:
  "snd (list_runs H now wn status hrs lim st) = snd (list_runs_try H now wn status hrs lim st)"
  by (simp add: list_runs_def split: prod.splits sum.splits)

lemma search_runs_snd:
  "snd (search_runs H now k v status hrs lim st) = snd (search_runs_try H now k v status hrs lim st)"
  by (simp add: search_runs_def split: prod.splits sum.splits)

lemma search_runs_try_sent:
  assumes "RunsList q \<in> set (sent st (snd (search_runs_try H now k v status hrs lim st)))"
  shows "hours_before now hrs = Inr (since q) \<and>
         q = add_status_filter status
             \<lparr>since = since q, limit = lim, statuses = None, workflow_ids = None,
              additional_metadata = Some [k \<mapsto> v]\<rparr>"
proof -
  obtain r st1 where g: "get_hatchet_client H st = (r, st1)"
    by (cases "get_hatchet_client H st")
  note rq = get_hatchet_client_requests [OF g]
  show ?thesis
    using assms g rq
    by (cases r; cases "hours_before now hrs")
      (auto simp: search_runs_try_def sent_def aio_runs_list_def status_filter_fields
        split: sum.splits)
qed

lemma bogus_unrecognized: "STATUS_MAP (lower ''bogus'') = None"
  by (simp add: STATUS_MAP_def lower_def lower_char_def ascii_upper_def ascii_lower_def)

lemma example_hours_before:
  "hours_before example_now 24 = Inr (example_now - 24 * us_per_hour)"
  by (simp add: hours_before_def timedelta_hours_def datetime_sub_def us_per_hour_def
      datetime_end_def example_now_def)

lemma hours_before_value:
  "hours_before now h = Inr t \<Longrightarrow> t = now - h * us_per_hour"
  by (auto simp: hours_before_def timedelta_hours_def datetime_sub_def Let_def
      split: sum.splits if_splits)

lemma ready_client:
  "get_hatchet_client (ready c) initial_state
     = (Inr (0, c), \<lparr>cache = Some (0, c), attempts = 1, constructed = 1, requests = []\<rparr>)"
  by (simp add: get_hatchet_client_def ready_def initial_state_def)

lemma add_workflow_filter_absent: "add_workflow_filter h None p st = (Inr p, st)"
  by (simp add: add_workflow_filter_def)

lemma add_workflow_filter_empty: "add_workflow_filter h (Some []) p st = (Inr p, st)"
  by (simp add: add_workflow_filter_def)

lemma caught_cases:
  "isinstance_Exception e \<Longrightarrow> caught_list e = Inr [error_dict e]"
  "isinstance_Exception e \<Longrightarrow> caught_dict e = Inr (error_dict e)"
  "isinstance_Exception e \<Longrightarrow> caught_run_id e run_id = Inr (error_dict_run_id e run_id)"
  "\<not> isinstance_Exception e \<Longrightarrow> caught_list e = Inl e"
  "\<not> isinstance_Exception e \<Longrightarrow> caught_dict e = Inl e"
  "\<not> isinstance_Exception e \<Longrightarrow> caught_run_id e run_id = Inl e"
  by (simp_all add: caught_list_def caught_dict_def caught_run_id_def)

lemma caught_raises:
  "caught_list e = Inl x \<Longrightarrow> \<not> isinstance_Exception x"
  "caught_dict e = Inl x \<Longrightarrow> \<not> isinstance_Exception x"
  "caught_run_id e run_id = Inl x \<Longrightarrow> \<not> isinstance_Exception x"
  by (auto simp: caught_list_def caught_dict_def caught_run_id_def split: if_splits)

lemma list_runs_fst:
  "fst (list_runs H now wn status hrs lim st) =
     (case fst (list_runs_try H now wn status hrs lim st) of
        Inl e \<Rightarrow> caught_list e | Inr result \<Rightarrow> Inr result)"
  by (simp add: list_runs_def split: prod.splits sum.splits)

lemma search_runs_fst:
  "fst (search_runs H now k v status hrs lim st) =
     (case fst (search_runs_try H now k v status hrs lim st) of
        Inl e \<Rightarrow> caught_list e | Inr result \<Rightarrow> Inr result)"
  by (simp add: search_runs_def split: prod.splits sum.splits)

lemma get_queue_metrics_fst:
  "fst (get_queue_metrics H now wn st) =
     (case fst (get_queue_metrics_try H now wn st) of
        Inl e \<Rightarrow> caught_dict e | Inr result \<Rightarrow> Inr result)"
  by (simp add: get_queue_metrics_def split: prod.splits sum.splits)

lemma get_queue_metrics_snd:
  "snd (get_queue_metrics H now wn st) = snd (get_queue_metrics_try H now wn st)"
  by (simp add: get_queue_metrics_def split: prod.splits sum.splits)

lemma list_runs_try_filtered:
  assumes "get_hatchet_client H st = (Inr h, st1)"
    and "hours_before now hrs = Inr t"
    and "add_workflow_filter h wn
           (add_status_filter status
              \<lparr>since = t, limit = lim, statuses = None, workflow_ids = None,
               additional_metadata = None\<rparr>) st1 = (Inr p, st2)"
  shows "list_runs_try H now wn status hrs lim st =
     (case runs_aio_list (snd h) p of
        Inl e \<Rightarrow> Inl e
      | Inr runs \<Rightarrow> map_exc serialize_run (rows_or_empty runs),
      st2\<lparr>requests := requests st2 @ [RunsList p]\<rparr>)"
  using assms by (simp add: list_runs_try_def aio_runs_list_def split: sum.splits)

lemma get_queue_metrics_try_filtered:
  assumes "get_hatchet_client H st = (Inr h, st1)"
    and "hours_before now 24 = Inr t"
    and "add_workflow_filter h wn
              \<lparr>since = t, limit = 1000, statuses = None, workflow_ids = None,
               additional_metadata = None\<rparr> st1 = (Inr p, st2)"
  shows "get_queue_metrics_try H now wn st =
     (case runs_aio_list (snd h) p of
        Inl e \<Rightarrow> Inl e
      | Inr runs \<Rightarrow>
          (case count_runs initial_counts (rows_or_empty runs) of
             Inl e \<Rightarrow> Inl e
           | Inr counts \<Rightarrow>
               Inr [''workflow_name'' \<mapsto> JVal (PStr (name_or_all wn)),
                    ''time_range_hours'' \<mapsto> JInt 24,
                    ''counts'' \<mapsto> JIntDict counts]),
      st2\<lparr>requests := requests st2 @ [RunsList p]\<rparr>)"
  using assms by (simp add: get_queue_metrics_try_def aio_runs_list_def split: sum.splits)

lemma search_runs_try_query:
  assumes "get_hatchet_client H st = (Inr h, st1)"
    and "hours_before now hrs = Inr t"
  shows "search_runs_try H now k v status hrs lim st =
     (case runs_aio_list (snd h)
             (add_status_filter status
                \<lparr>since = t, limit = lim, statuses = None, workflow_ids = None,
                 additional_metadata = Some [k \<mapsto> v]\<rparr>) of
        Inl e \<Rightarrow> Inl e
      | Inr runs \<Rightarrow> map_exc serialize_run (rows_or_empty runs),
      st1\<lparr>requests := requests st1 @
         [RunsList (add_status_filter status
                \<lparr>since = t, limit = lim, statuses = None, workflow_ids = None,
                 additional_metadata = Some [k \<mapsto> v]\<rparr>)]\<rparr>)"
  using assms by (simp add: search_runs_try_def aio_runs_list_def split: sum.splits)

lemma flattened_rows:
  "(case (case r of Inl e \<Rightarrow> Inl e | Inr runs \<Rightarrow> map_exc serialize_run (rows_or_empty runs)) of
      Inl e \<Rightarrow> caught_list e | Inr result \<Rightarrow> Inr result)
   = (case r of
        Inl e \<Rightarrow> caught_list e
      | Inr runs \<Rightarrow>
          (case map_exc serialize_run (rows_or_empty runs) of
             Inl e \<Rightarrow> caught_list e
           | Inr result \<Rightarrow> Inr result))"
  by (simp split: sum.splits)

text \<open>
  C3. With a status string that is not a key of \<^verbatim>\<open>STATUS_MAP\<close> after \<^verbatim>\<open>lower()\<close>,
  \<^verbatim>\<open>list_runs\<close> and \<^verbatim>\<open>search_runs\<close> do what they do with no status at all (same outcome,
  same requests), and no query they send has \<^verbatim>\<open>statuses\<close>. When the client is there and
  the date is in range, \<^verbatim>\<open>search_runs\<close> sends exactly one query, the one with the metadata
  filter and without \<^verbatim>\<open>statuses\<close>, and \<^verbatim>\<open>list_runs\<close> sends its query without \<^verbatim>\<open>statuses\<close>
  (without a workflow name it is the only request); each returns the flattened rows of the
  answer to that query, so the status string raises nothing and empties nothing.
\<close>

theorem unrecognized_status_not_filtered:
  assumes "STATUS_MAP (lower s) = None"
  shows "list_runs Hatchet now workflow_name (Some s) since_hours lim st
           = list_runs Hatchet now workflow_name None since_hours lim st \<and>
         search_runs Hatchet now metadata_key metadata_value (Some s) since_hours lim st
           = search_runs Hatchet now metadata_key metadata_value None since_hours lim st \<and>
         (\<forall>q. RunsList q \<in> set (sent st
                 (snd (list_runs Hatchet now workflow_name (Some s) since_hours lim st)))
               \<longrightarrow> statuses q = None) \<and>
         (\<forall>q. RunsList q \<in> set (sent st
                 (snd (search_runs Hatchet now metadata_key metadata_value (Some s)
                         since_hours lim st)))
               \<longrightarrow> statuses q = None) \<and>
         (get_hatchet_client Hatchet st = (Inr hatchet, st1) \<and>
          hours_before now since_hours = Inr t \<longrightarrow>
            sent st (snd (search_runs Hatchet now metadata_key metadata_value (Some s)
                            since_hours lim st))
              = [RunsList \<lparr>since = t, limit = lim, statuses = None, workflow_ids = None,
                   additional_metadata = Some [metadata_key \<mapsto> metadata_value]\<rparr>] \<and>
            fst (search_runs Hatchet now metadata_key metadata_value (Some s) since_hours lim st)
              = (case runs_aio_list (snd hatchet)
                        \<lparr>since = t, limit = lim, statuses = None, workflow_ids = None,
                         additional_metadata = Some [metadata_key \<mapsto> metadata_value]\<rparr> of
                   Inl e \<Rightarrow> caught_list e
                 | Inr runs \<Rightarrow>
                     (case map_exc serialize_run (rows_or_empty runs) of
                        Inl e \<Rightarrow> caught_list e
                      | Inr result \<Rightarrow> Inr result)) \<and>
            sent st (snd (list_runs Hatchet now None (Some s) since_hours lim st))
              = [RunsList \<lparr>since = t, limit = lim, statuses = None, workflow_ids = None,
                   additional_metadata = None\<rparr>] \<and>
            fst (list_runs Hatchet now None (Some s) since_hours lim st)
              = (case runs_aio_list (snd hatchet)
                        \<lparr>since = t, limit = lim, statuses = None, workflow_ids = None,
                         additional_metadata = None\<rparr> of
                   Inl e \<Rightarrow> caught_list e
                 | Inr runs \<Rightarrow>
                     (case map_exc serialize_run (rows_or_empty runs) of
                        Inl e \<Rightarrow> caught_list e
                      | Inr result \<Rightarrow> Inr result)) \<and>
            (\<forall>p st2.
               add_workflow_filter hatchet workflow_name
                 \<lparr>since = t, limit = lim, statuses = None, workflow_ids = None,
                  additional_metadata = None\<rparr> st1 = (Inr p, st2) \<longrightarrow>
               statuses p = None \<and>
               requests (snd (list_runs Hatchet now workflow_name (Some s) since_hours lim st))
                 = requests st2 @ [RunsList p] \<and>
               fst (list_runs Hatchet now workflow_name (Some s) since_hours lim st)
                 = (case runs_aio_list (snd hatchet) p of
                      Inl e \<Rightarrow> caught_list e
                    | Inr runs \<Rightarrow>
                        (case map_exc serialize_run (rows_or_empty runs) of
                           Inl e \<Rightarrow> caught_list e
                         | Inr result \<Rightarrow> Inr result))))"
proof -
  have u: "add_status_filter (Some s) p = p" for p
    using assms by (rule status_filter_unrecognized)
  have e: "add_status_filter (Some s) p = add_status_filter None p" for p
    by (simp add: u status_filter_None)
  have 1: "list_runs Hatchet now workflow_name (Some s) since_hours lim st
           = list_runs Hatchet now workflow_name None since_hours lim st"
    unfolding list_runs_def list_runs_try_def e by (rule refl)
  have 2: "search_runs Hatchet now metadata_key metadata_value (Some s) since_hours lim st
           = search_runs Hatchet now metadata_key metadata_value None since_hours lim st"
    unfolding search_runs_def search_runs_try_def e by (rule refl)
  have 3: "statuses q = None"
    if "RunsList q \<in> set (sent st
          (snd (list_runs Hatchet now workflow_name (Some s) since_hours lim st)))" for q
    using list_runs_try_sent [OF that [unfolded list_runs_snd]] by (simp add: u)
  have 4: "statuses q = None"
    if "RunsList q \<in> set (sent st
          (snd (search_runs Hatchet now metadata_key metadata_value (Some s)
                  since_hours lim st)))" for q
  proof -
    from search_runs_try_sent [OF that [unfolded search_runs_snd]]
    have "q = \<lparr>since = since q, limit = lim, statuses = None, workflow_ids = None,
              additional_metadata = Some [metadata_key \<mapsto> metadata_value]\<rparr>"
      by (simp add: u)
    then show ?thesis by (metis params.select_convs(3))
  qed
  have 5: "sent st (snd (search_runs Hatchet now metadata_key metadata_value (Some s)
                            since_hours lim st))
              = [RunsList \<lparr>since = t, limit = lim, statuses = None, workflow_ids = None,
                   additional_metadata = Some [metadata_key \<mapsto> metadata_value]\<rparr>] \<and>
            fst (search_runs Hatchet now metadata_key metadata_value (Some s) since_hours lim st)
              = (case runs_aio_list (snd hatchet)
                        \<lparr>since = t, limit = lim, statuses = None, workflow_ids = None,
                         additional_metadata = Some [metadata_key \<mapsto> metadata_value]\<rparr> of
                   Inl e \<Rightarrow> caught_list e
                 | Inr runs \<Rightarrow>
                     (case map_exc serialize_run (rows_or_empty runs) of
                        Inl e \<Rightarrow> caught_list e
                      | Inr result \<Rightarrow> Inr result))"
    if g: "get_hatchet_client Hatchet st = (Inr hatchet, st1)"
      and h: "hours_before now since_hours = Inr t"
    using get_hatchet_client_requests [OF g]
    by (simp add: search_runs_snd search_runs_fst search_runs_try_query [OF g h] u sent_def
        flattened_rows)
  have 6: "statuses p = None \<and>
           requests (snd (list_runs Hatchet now wn (Some s) since_hours lim st))
             = requests st2 @ [RunsList p] \<and>
           fst (list_runs Hatchet now wn (Some s) since_hours lim st)
             = (case runs_aio_list (snd hatchet) p of
                  Inl e \<Rightarrow> caught_list e
                | Inr runs \<Rightarrow>
                    (case map_exc serialize_run (rows_or_empty runs) of
                       Inl e \<Rightarrow> caught_list e
                     | Inr result \<Rightarrow> Inr result))"
    if g: "get_hatchet_client Hatchet st = (Inr hatchet, st1)"
      and h: "hours_before now since_hours = Inr t"
      and a: "add_workflow_filter hatchet wn
                 \<lparr>since = t, limit = lim, statuses = None, workflow_ids = None,
                  additional_metadata = None\<rparr> st1 = (Inr p, st2)" for wn p st2
  proof -
    from a have a': "add_workflow_filter hatchet wn
        (add_status_filter (Some s)
           \<lparr>since = t, limit = lim, statuses = None, workflow_ids = None,
            additional_metadata = None\<rparr>) st1 = (Inr p, st2)"
      by (simp add: u)
    from add_workflow_filter_result [OF a] have "statuses p = None"
      by simp
    then show ?thesis
      by (simp add: list_runs_snd list_runs_fst list_runs_try_filtered [OF g h a']
          flattened_rows)
  qed
  have 7: "sent st (snd (list_runs Hatchet now None (Some s) since_hours lim st))
              = [RunsList \<lparr>since = t, limit = lim, statuses = None, workflow_ids = None,
                   additional_metadata = None\<rparr>] \<and>
            fst (list_runs Hatchet now None (Some s) since_hours lim st)
              = (case runs_aio_list (snd hatchet)
                        \<lparr>since = t, limit = lim, statuses = None, workflow_ids = None,
                         additional_metadata = None\<rparr> of
                   Inl e \<Rightarrow> caught_list e
                 | Inr runs \<Rightarrow>
                     (case map_exc serialize_run (rows_or_empty runs) of
                        Inl e \<Rightarrow> caught_list e
                      | Inr result \<Rightarrow> Inr result))"
    if g: "get_hatchet_client Hatchet st = (Inr hatchet, st1)"
      and h: "hours_before now since_hours = Inr t"
    using 6 [OF g h add_workflow_filter_absent] get_hatchet_client_requests [OF g]
    by (simp add: sent_def)
  have 8: "get_hatchet_client Hatchet st = (Inr hatchet, st1) \<and>
          hours_before now since_hours = Inr t \<longrightarrow>
            (\<forall>p st2.
               add_workflow_filter hatchet workflow_name
                 \<lparr>since = t, limit = lim, statuses = None, workflow_ids = None,
                  additional_metadata = None\<rparr> st1 = (Inr p, st2) \<longrightarrow>
               statuses p = None \<and>
               requests (snd (list_runs Hatchet now workflow_name (Some s) since_hours lim st))
                 = requests st2 @ [RunsList p] \<and>
               fst (list_runs Hatchet now workflow_name (Some s) since_hours lim st)
                 = (case runs_aio_list (snd hatchet) p of
                      Inl e \<Rightarrow> caught_list e
                    | Inr runs \<Rightarrow>
                        (case map_exc serialize_run (rows_or_empty runs) of
                           Inl e \<Rightarrow> caught_list e
                         | Inr result \<Rightarrow> Inr result)))"
    using 6 by blast
  show ?thesis
  proof (intro conjI impI)
    show "list_runs Hatchet now workflow_name (Some s) since_hours lim st
           = list_runs Hatchet now workflow_name None since_hours lim st"
      by (rule 1)
    show "search_runs Hatchet now metadata_key metadata_value (Some s) since_hours lim st
           = search_runs Hatchet now metadata_key metadata_value None since_hours lim st"
      by (rule 2)
    show "\<forall>q. RunsList q \<in> set (sent st
                 (snd (list_runs Hatchet now workflow_name (Some s) since_hours lim st)))
               \<longrightarrow> statuses q = None"
      using 3 by blast
    show "\<forall>q. RunsList q \<in> set (sent st
                 (snd (search_runs Hatchet now metadata_key metadata_value (Some s)
                         since_hours lim st)))
               \<longrightarrow> statuses q = None"
      using 4 by blast
  next
    assume c: "get_hatchet_client Hatchet st = (Inr hatchet, st1) \<and>
          hours_before now since_hours = Inr t"
    then have g: "get_hatchet_client Hatchet st = (Inr hatchet, st1)"
      and h: "hours_before now since_hours = Inr t"
      by simp_all
    note f = 5 [OF g h] 7 [OF g h]
    show "sent st (snd (search_runs Hatchet now metadata_key metadata_value (Some s)
                            since_hours lim st))
              = [RunsList \<lparr>since = t, limit = lim, statuses = None, workflow_ids = None,
                   additional_metadata = Some [metadata_key \<mapsto> metadata_value]\<rparr>]"
      by (rule f(1) [THEN conjunct1])
    show "fst (search_runs Hatchet now metadata_key metadata_value (Some s) since_hours lim st)
              = (case runs_aio_list (snd hatchet)
                        \<lparr>since = t, limit = lim, statuses = None, workflow_ids = None,
                         additional_metadata = Some [metadata_key \<mapsto> metadata_value]\<rparr> of
                   Inl e \<Rightarrow> caught_list e
                 | Inr runs \<Rightarrow>
                     (case map_exc serialize_run (rows_or_empty runs) of
                        Inl e \<Rightarrow> caught_list e
                      | Inr result \<Rightarrow> Inr result))"
      by (rule f(1) [THEN conjunct2])
    show "sent st (snd (list_runs Hatchet now None (Some s) since_hours lim st))
              = [RunsList \<lparr>since = t, limit = lim, statuses = None, workflow_ids = None,
                   additional_metadata = None\<rparr>]"
      by (rule f(2) [THEN conjunct1])
    show "fst (list_runs Hatchet now None (Some s) since_hours lim st)
              = (case runs_aio_list (snd hatchet)
                        \<lparr>since = t, limit = lim, statuses = None, workflow_ids = None,
                         additional_metadata = None\<rparr> of
                   Inl e \<Rightarrow> caught_list e
                 | Inr runs \<Rightarrow>
                     (case map_exc serialize_run (rows_or_empty runs) of
                        Inl e \<Rightarrow> caught_list e
                      | Inr result \<Rightarrow> Inr result))"
      by (rule f(2) [THEN conjunct2])
    show "\<forall>p st2.
               add_workflow_filter hatchet workflow_name
                 \<lparr>since = t, limit = lim, statuses = None, workflow_ids = None,
                  additional_metadata = None\<rparr> st1 = (Inr p, st2) \<longrightarrow>
               statuses p = None \<and>
               requests (snd (list_runs Hatchet now workflow_name (Some s) since_hours lim st))
                 = requests st2 @ [RunsList p] \<and>
               fst (list_runs Hatchet now workflow_name (Some s) since_hours lim st)
                 = (case runs_aio_list (snd hatchet) p of
                      Inl e \<Rightarrow> caught_list e
                    | Inr runs \<Rightarrow>
                        (case map_exc serialize_run (rows_or_empty runs) of
                           Inl e \<Rightarrow> caught_list e
                         | Inr result \<Rightarrow> Inr result))"
      using 8 c by blast
  qed
qed

lemma one_run_flattened:
  "map_sum id (map (\<lambda>d. d ''status''))
     (case map_exc serialize_run (rows_or_empty (Some [example_run])) of
        Inl e \<Rightarrow> caught_list e
      | Inr result \<Rightarrow> Inr result)
   = Inr [Some (JVal (PStr ''RUNNING''))]"
  by (simp add: rows_or_empty_def serialize_run_def example_run_def hasattr_def getattr_def
      Let_def)

theorem unrecognized_status_not_filtered_witness:
  "STATUS_MAP (lower ''bogus'') = None \<and>
   sent initial_state
     (snd (search_runs (ready one_run_client) example_now ''audit_id'' ''A-42'' (Some ''bogus'')
             24 50 initial_state))
     = [RunsList \<lparr>since = example_now - 24 * us_per_hour, limit = 50, statuses = None,
          workflow_ids = None, additional_metadata = Some [''audit_id'' \<mapsto> ''A-42'']\<rparr>] \<and>
   map_sum id (map (\<lambda>d. d ''status''))
     (fst (search_runs (ready one_run_client) example_now ''audit_id'' ''A-42'' (Some ''bogus'')
             24 50 initial_state))
     = Inr [Some (JVal (PStr ''RUNNING''))] \<and>
   sent initial_state
     (snd (list_runs (ready one_run_client) example_now None (Some ''bogus'') 24 50
             initial_state))
     = [RunsList \<lparr>since = example_now - 24 * us_per_hour, limit = 50, statuses = None,
                  workflow_ids = None, additional_metadata = None\<rparr>] \<and>
   map_sum id (map (\<lambda>d. d ''status''))
     (fst (list_runs (ready one_run_client) example_now None (Some ''bogus'') 24 50
             initial_state))
     = Inr [Some (JVal (PStr ''RUNNING''))] \<and>
   list_runs (ready one_run_client) example_now None (Some ''bogus'') 24 50 initial_state
     = list_runs (ready one_run_client) example_now None None 24 50 initial_state"
proof -
  note u = unrecognized_status_not_filtered [OF bogus_unrecognized]
  note c = u [THEN conjunct2, THEN conjunct2, THEN conjunct2, THEN conjunct2, rule_format,
      OF conjI [OF ready_client example_hours_before]]
  have r: "runs_aio_list (snd (0, one_run_client)) q = Inr (Some [example_run])" for q
    by (simp add: one_run_client_def fixed_client_def)
  note s1 = c [THEN conjunct1]
  note v1 = c [THEN conjunct2, THEN conjunct1]
  note s2 = c [THEN conjunct2, THEN conjunct2, THEN conjunct1]
  note v2 = c [THEN conjunct2, THEN conjunct2, THEN conjunct2, THEN conjunct1]
  have w1: "map_sum id (map (\<lambda>d. d ''status''))
     (fst (search_runs (ready one_run_client) example_now ''audit_id'' ''A-42'' (Some ''bogus'')
             24 50 initial_state))
     = Inr [Some (JVal (PStr ''RUNNING''))]"
    unfolding v1 r sum.case by (rule one_run_flattened)
  have w2: "map_sum id (map (\<lambda>d. d ''status''))
     (fst (list_runs (ready one_run_client) example_now None (Some ''bogus'') 24 50
             initial_state))
     = Inr [Some (JVal (PStr ''RUNNING''))]"
    unfolding v2 r sum.case by (rule one_run_flattened)
  show ?thesis
    by (intro conjI; rule bogus_unrecognized s1 s2 w1 w2 u [THEN conjunct1])
qed

lemma search_runs_try_requests:
  "requests (snd (search_runs_try H now k v status hrs lim st)) = requests st \<or>
   (\<exists>t. hours_before now hrs = Inr t \<and>
     requests (snd (search_runs_try H now k v status hrs lim st)) = requests st @
       [RunsList (add_status_filter status
          \<lparr>since = t, limit = lim, statuses = None, workflow_ids = None,
           additional_metadata = Some [k \<mapsto> v]\<rparr>)])"
proof -
  obtain r st1 where g: "get_hatchet_client H st = (r, st1)"
    by (cases "get_hatchet_client H st")
  note rq = get_hatchet_client_requests [OF g]
  show ?thesis
    using g rq
    by (cases r; cases "hours_before now hrs")
      (auto simp: search_runs_try_def aio_runs_list_def split: sum.splits)
qed

text \<open>
  C9. \<^verbatim>\<open>search_runs\<close> with a status name that \<^verbatim>\<open>STATUS_MAP\<close> knows sends nothing but the
  query with the metadata filter \<^verbatim>\<open>{metadata_key: metadata_value}\<close>, the code of the name
  as the only status, the given limit and since = now - since_hours hours, and no workflow
  filter. When the client is there and the date is in range it sends exactly that query, and
  returns its flattened rows (or the error value). The defaults are 24 hours and 50 runs.
\<close>

theorem search_runs_query:
  assumes "STATUS_MAP (lower s) = Some code"
  shows "(\<forall>r \<in> set (sent st (snd (search_runs Hatchet now metadata_key metadata_value (Some s)
                                   since_hours lim st))).
            r = RunsList \<lparr>since = now - since_hours * us_per_hour, limit = lim,
                  statuses = Some [code], workflow_ids = None,
                  additional_metadata = Some [metadata_key \<mapsto> metadata_value]\<rparr>) \<and>
         (get_hatchet_client Hatchet st = (Inr hatchet, st1) \<and>
          hours_before now since_hours = Inr t \<longrightarrow>
            t = now - since_hours * us_per_hour \<and>
            sent st (snd (search_runs Hatchet now metadata_key metadata_value (Some s)
                            since_hours lim st))
              = [RunsList \<lparr>since = t, limit = lim,
                  statuses = Some [code], workflow_ids = None,
                  additional_metadata = Some [metadata_key \<mapsto> metadata_value]\<rparr>] \<and>
            fst (search_runs Hatchet now metadata_key metadata_value (Some s) since_hours lim st)
              = (case runs_aio_list (snd hatchet)
                        \<lparr>since = t, limit = lim,
                         statuses = Some [code], workflow_ids = None,
                         additional_metadata = Some [metadata_key \<mapsto> metadata_value]\<rparr> of
                   Inl e \<Rightarrow> caught_list e
                 | Inr runs \<Rightarrow>
                     (case map_exc serialize_run (rows_or_empty runs) of
                        Inl e \<Rightarrow> caught_list e
                      | Inr result \<Rightarrow> Inr result))) \<and>
         default_since_hours = 24 \<and> default_limit = 50"
proof -
  have ne: "s \<noteq> []"
    using assms by (auto simp: lower_def STATUS_MAP_def)
  have f: "add_status_filter (Some s) p = p\<lparr>statuses := Some [code]\<rparr>" for p
    using ne assms by (rule status_filter_recognized)
  have 1: "r = RunsList \<lparr>since = now - since_hours * us_per_hour, limit = lim,
                  statuses = Some [code], workflow_ids = None,
                  additional_metadata = Some [metadata_key \<mapsto> metadata_value]\<rparr>"
    if "r \<in> set (sent st (snd (search_runs Hatchet now metadata_key metadata_value (Some s)
                                   since_hours lim st)))" for r
    using that search_runs_try_requests [of Hatchet now metadata_key metadata_value "Some s" since_hours lim st]
    by (auto simp: search_runs_snd sent_def f dest: hours_before_value)
  have 2: "t = now - since_hours * us_per_hour \<and>
            sent st (snd (search_runs Hatchet now metadata_key metadata_value (Some s)
                            since_hours lim st))
              = [RunsList \<lparr>since = t, limit = lim,
                  statuses = Some [code], workflow_ids = None,
                  additional_metadata = Some [metadata_key \<mapsto> metadata_value]\<rparr>] \<and>
            fst (search_runs Hatchet now metadata_key metadata_value (Some s) since_hours lim st)
              = (case runs_aio_list (snd hatchet)
                        \<lparr>since = t, limit = lim,
                         statuses = Some [code], workflow_ids = None,
                         additional_metadata = Some [metadata_key \<mapsto> metadata_value]\<rparr> of
                   Inl e \<Rightarrow> caught_list e
                 | Inr runs \<Rightarrow>
                     (case map_exc serialize_run (rows_or_empty runs) of
                        Inl e \<Rightarrow> caught_list e
                      | Inr result \<Rightarrow> Inr result))"
    if g: "get_hatchet_client Hatchet st = (Inr hatchet, st1)"
      and h: "hours_before now since_hours = Inr t"
    using g h get_hatchet_client_requests [OF g] hours_before_value [OF h]
    by (simp add: search_runs_def search_runs_try_def aio_runs_list_def f sent_def
        split: sum.splits)
  from 1 2 show ?thesis
    by (simp add: default_since_hours_def default_limit_def)
qed

lemma failed_recognized: "STATUS_MAP (lower ''failed'') = Some FAILED"
  by (simp add: STATUS_MAP_def lower_def lower_char_def ascii_upper_def ascii_lower_def)

theorem search_runs_query_witness:
  "STATUS_MAP (lower ''failed'') = Some FAILED \<and>
   hours_before example_now default_since_hours = Inr (example_now - 24 * us_per_hour) \<and>
   sent initial_state
     (snd (search_runs (ready one_run_client) example_now ''audit_id'' ''A-42'' (Some ''failed'')
             default_since_hours default_limit initial_state))
     = [RunsList \<lparr>since = example_now - 24 * us_per_hour, limit = default_limit,
          statuses = Some [FAILED], workflow_ids = None,
          additional_metadata = Some [''audit_id'' \<mapsto> ''A-42'']\<rparr>] \<and>
   default_limit = 50"
proof -
  have h: "hours_before example_now default_since_hours = Inr (example_now - 24 * us_per_hour)"
    by (simp add: default_since_hours_def example_hours_before)
  note q = search_runs_query [OF failed_recognized, THEN conjunct2, THEN conjunct1, rule_format,
      OF conjI [OF ready_client h], THEN conjunct2, THEN conjunct1]
  show ?thesis
    by (intro conjI; rule failed_recognized h q default_limit_def)
qed

section \<open>Resolving a workflow name\<close>

lemma matching_ids_filter:
  "matching_ids name rows = Inr ids \<Longrightarrow>
     map Inr ids = map metadata_id (filter (name_matches name) rows)"
  by (induction rows arbitrary: ids) (auto split: if_splits sum.splits)

lemma matching_ids_none:
  "filter (name_matches name) rows = [] \<Longrightarrow> matching_ids name rows = Inr []"
  by (induction rows) (auto split: if_splits)

lemma name_matches_str:
  "getattr w ''name'' = Inr (PStr n) \<Longrightarrow> name_matches name w = (n = name)"
  by (simp add: name_matches_def)

lemma name_matches_absent:
  "\<not> hasattr w ''name'' \<Longrightarrow> \<not> name_matches name w"
  by (simp add: name_matches_def hasattr_def split: sum.splits)

lemma add_workflow_filter_no_match:
  assumes "workflows_aio_list (snd h) = Inr workflows"
    and "filter (name_matches name) (rows_or_empty workflows) = []"
  shows "fst (add_workflow_filter h (Some name) p st) = Inr p \<and>
         (requests (snd (add_workflow_filter h (Some name) p st)) = requests st \<or>
          requests (snd (add_workflow_filter h (Some name) p st)) = requests st @ [WorkflowsList])
         \<and> cache (snd (add_workflow_filter h (Some name) p st)) = cache st"
  using assms
  by (simp add: add_workflow_filter_def aio_workflows_list_def matching_ids_none)

lemma add_workflow_filter_no_match_eq:
  assumes "workflows_aio_list (snd h) = Inr workflows"
    and "filter (name_matches name) (rows_or_empty workflows) = []"
  shows "\<exists>st2. add_workflow_filter h (Some name) p st = (Inr p, st2) \<and>
           (requests st2 = requests st \<or> requests st2 = requests st @ [WorkflowsList])"
  using add_workflow_filter_no_match [OF assms, of p st]
  by (cases "add_workflow_filter h (Some name) p st") auto

lemma add_workflow_filter_found:
  assumes "name \<noteq> []"
    and "workflows_aio_list (snd h) = Inr workflows"
    and "matching_ids name (rows_or_empty workflows) = Inr found"
  shows "add_workflow_filter h (Some name) p st =
     (Inr (if found = [] then p else p\<lparr>workflow_ids := Some found\<rparr>),
      st\<lparr>requests := requests st @ [WorkflowsList]\<rparr>)"
  using assms by (simp add: add_workflow_filter_def aio_workflows_list_def)

lemma status_filter_workflow_ids:
  "(if found = [] then add_status_filter status
        \<lparr>since = t, limit = lim, statuses = None, workflow_ids = None,
         additional_metadata = None\<rparr>
    else (add_status_filter status
        \<lparr>since = t, limit = lim, statuses = None, workflow_ids = None,
         additional_metadata = None\<rparr>)\<lparr>workflow_ids := Some found\<rparr>)
   = add_status_filter status
        \<lparr>since = t, limit = lim, statuses = None,
         workflow_ids = (if found = [] then None else Some found),
         additional_metadata = None\<rparr>"
  by (simp add: add_status_filter_def split: option.splits)

lemma counted_rows:
  "(case (case r of
            Inl e \<Rightarrow> Inl e
          | Inr runs \<Rightarrow>
              (case count_runs initial_counts (rows_or_empty runs) of
                 Inl e \<Rightarrow> Inl e
               | Inr counts \<Rightarrow> Inr (f counts))) of
      Inl e \<Rightarrow> caught_dict e | Inr result \<Rightarrow> Inr result)
   = (case r of
        Inl e \<Rightarrow> caught_dict e
      | Inr runs \<Rightarrow>
          (case count_runs initial_counts (rows_or_empty runs) of
             Inl e \<Rightarrow> caught_dict e
           | Inr counts \<Rightarrow> Inr (f counts)))"
  by (simp split: sum.splits)

lemma list_runs_named:
  assumes g: "get_hatchet_client H st = (Inr h, st1)"
    and n: "name \<noteq> []"
    and w: "workflows_aio_list (snd h) = Inr workflows"
    and m: "matching_ids name (rows_or_empty workflows) = Inr found"
    and t: "hours_before now hrs = Inr t"
  shows "sent st (snd (list_runs H now (Some name) status hrs lim st))
           = [WorkflowsList,
              RunsList (add_status_filter status
                \<lparr>since = t, limit = lim, statuses = None,
                 workflow_ids = (if found = [] then None else Some found),
                 additional_metadata = None\<rparr>)] \<and>
         fst (list_runs H now (Some name) status hrs lim st)
           = (case runs_aio_list (snd h)
                     (add_status_filter status
                        \<lparr>since = t, limit = lim, statuses = None,
                         workflow_ids = (if found = [] then None else Some found),
                         additional_metadata = None\<rparr>) of
                Inl e \<Rightarrow> caught_list e
              | Inr runs \<Rightarrow>
                  (case map_exc serialize_run (rows_or_empty runs) of
                     Inl e \<Rightarrow> caught_list e
                   | Inr result \<Rightarrow> Inr result))"
  using get_hatchet_client_requests [OF g]
  by (simp add: list_runs_snd list_runs_fst
      list_runs_try_filtered [OF g t add_workflow_filter_found [OF n w m]]
      status_filter_workflow_ids sent_def flattened_rows)

lemma get_queue_metrics_named:
  assumes g: "get_hatchet_client H st = (Inr h, st1)"
    and n: "name \<noteq> []"
    and w: "workflows_aio_list (snd h) = Inr workflows"
    and m: "matching_ids name (rows_or_empty workflows) = Inr found"
    and t: "hours_before now 24 = Inr t"
  shows "sent st (snd (get_queue_metrics H now (Some name) st))
           = [WorkflowsList,
              RunsList \<lparr>since = t, limit = 1000, statuses = None,
                 workflow_ids = (if found = [] then None else Some found),
                 additional_metadata = None\<rparr>] \<and>
         fst (get_queue_metrics H now (Some name) st)
           = (case runs_aio_list (snd h)
                     \<lparr>since = t, limit = 1000, statuses = None,
                      workflow_ids = (if found = [] then None else Some found),
                      additional_metadata = None\<rparr> of
                Inl e \<Rightarrow> caught_dict e
              | Inr runs \<Rightarrow>
                  (case count_runs initial_counts (rows_or_empty runs) of
                     Inl e \<Rightarrow> caught_dict e
                   | Inr counts \<Rightarrow>
                       Inr [''workflow_name'' \<mapsto> JVal (PStr name),
                            ''time_range_hours'' \<mapsto> JInt 24,
                            ''counts'' \<mapsto> JIntDict counts]))"
proof -
  have p: "(if found = [] then
        \<lparr>since = t, limit = 1000, statuses = None, workflow_ids = None,
         additional_metadata = None\<rparr>
      else \<lparr>since = t, limit = 1000, statuses = None, workflow_ids = None,
         additional_metadata = None\<rparr>\<lparr>workflow_ids := Some found\<rparr>)
    = \<lparr>since = t, limit = 1000, statuses = None,
         workflow_ids = (if found = [] then None else Some found),
         additional_metadata = None\<rparr>"
    by simp
  have a: "name_or_all (Some name) = name"
    using n by (simp add: name_or_all_def)
  note f = get_queue_metrics_try_filtered [OF g t add_workflow_filter_found [OF n w m],
      unfolded a p]
  show ?thesis
    using get_hatchet_client_requests [OF g]
    by (simp add: get_queue_metrics_snd get_queue_metrics_fst f sent_def counted_rows
        del: count_runs.simps)
qed

lemma unmatched_same_outcome:
  assumes g: "get_hatchet_client H st = (Inr h, st1)"
    and w: "workflows_aio_list (snd h) = Inr workflows"
    and m: "filter (name_matches name) (rows_or_empty workflows) = []"
  shows "fst (list_runs H now (Some name) status hrs lim st)
        = fst (list_runs H now None status hrs lim st) \<and>
      (\<forall>q. RunsList q \<in> set (sent st (snd (list_runs H now (Some name) status hrs lim st)))
            \<longrightarrow> workflow_ids q = None) \<and>
      map_sum id (\<lambda>d. d(''workflow_name'' := None)) (fst (get_queue_metrics H now (Some name) st))
        = map_sum id (\<lambda>d. d(''workflow_name'' := None)) (fst (get_queue_metrics H now None st)) \<and>
      (\<forall>q. RunsList q \<in> set (sent st (snd (get_queue_metrics H now (Some name) st)))
            \<longrightarrow> workflow_ids q = None)"
proof -
  note rq = get_hatchet_client_requests [OF g]
  have l: "fst (list_runs H now (Some name) status hrs lim st)
        = fst (list_runs H now None status hrs lim st) \<and>
      (\<forall>q. RunsList q \<in> set (sent st (snd (list_runs H now (Some name) status hrs lim st)))
            \<longrightarrow> workflow_ids q = None)"
  proof (cases "hours_before now hrs")
    case (Inl e)
    with g rq show ?thesis
      by (simp add: list_runs_fst list_runs_snd list_runs_try_def sent_def)
  next
    case (Inr t)
    let ?p = "add_status_filter status
              \<lparr>since = t, limit = lim, statuses = None, workflow_ids = None,
               additional_metadata = None\<rparr>"
    from add_workflow_filter_no_match_eq [OF w m, of ?p st1]
    obtain st2 where a: "add_workflow_filter h (Some name) ?p st1 = (Inr ?p, st2)"
      and r2: "requests st2 = requests st1 \<or> requests st2 = requests st1 @ [WorkflowsList]"
      by blast
    show ?thesis
      using r2 rq
      by (auto simp: list_runs_fst list_runs_snd sent_def status_filter_fields
          list_runs_try_filtered [OF g Inr a]
          list_runs_try_filtered [OF g Inr add_workflow_filter_absent])
  qed
  have q: "map_sum id (\<lambda>d. d(''workflow_name'' := None))
          (fst (get_queue_metrics H now (Some name) st))
        = map_sum id (\<lambda>d. d(''workflow_name'' := None)) (fst (get_queue_metrics H now None st)) \<and>
      (\<forall>q. RunsList q \<in> set (sent st (snd (get_queue_metrics H now (Some name) st)))
            \<longrightarrow> workflow_ids q = None)"
  proof (cases "hours_before now 24")
    case (Inl e)
    with g rq show ?thesis
      by (simp add: get_queue_metrics_fst get_queue_metrics_snd get_queue_metrics_try_def
          sent_def)
  next
    case (Inr t)
    let ?p = "\<lparr>since = t, limit = 1000, statuses = None, workflow_ids = None,
               additional_metadata = None\<rparr>"
    from add_workflow_filter_no_match_eq [OF w m, of ?p st1]
    obtain st2 where a: "add_workflow_filter h (Some name) ?p st1 = (Inr ?p, st2)"
      and r2: "requests st2 = requests st1 \<or> requests st2 = requests st1 @ [WorkflowsList]"
      by blast
    show ?thesis
      using r2 rq
      by (auto simp: get_queue_metrics_fst get_queue_metrics_snd sent_def
          get_queue_metrics_try_filtered [OF g Inr a]
          get_queue_metrics_try_filtered [OF g Inr add_workflow_filter_absent]
          split: sum.splits)
  qed
  from l q show ?thesis by blast
qed

text \<open>
  C4. The ids collected for a workflow name are those of exactly the rows whose \<^verbatim>\<open>name\<close>
  attribute equals the name (for a string, equality of strings, so case matters; a row
  without \<^verbatim>\<open>name\<close> never matches). Given a name, \<^verbatim>\<open>list_runs\<close> and \<^verbatim>\<open>get_queue_metrics\<close>
  first fetch the whole workflow list and then send one query, whose \<^verbatim>\<open>workflow_ids\<close> are
  the ids found, or are absent when none was found; they return the flattened rows, or the
  counts, of the answer to that query. When no row matches, \<^verbatim>\<open>list_runs\<close> returns what it
  returns without a workflow name, and \<^verbatim>\<open>get_queue_metrics\<close> returns the counts (or the
  error) of the call without a name: only the echoed \<^verbatim>\<open>workflow_name\<close> entry differs.
\<close>

theorem unmatched_workflow_name_dropped:
  "(matching_ids name rows = Inr ids \<longrightarrow>
      map Inr ids = map metadata_id (filter (name_matches name) rows)) \<and>
   (getattr w ''name'' = Inr (PStr n) \<longrightarrow> name_matches name w = (n = name)) \<and>
   (\<not> hasattr w ''name'' \<longrightarrow> \<not> name_matches name w) \<and>
   (name \<noteq> [] \<and> get_hatchet_client Hatchet st = (Inr hatchet, st1) \<and>
    workflows_aio_list (snd hatchet) = Inr workflows \<and>
    matching_ids name (rows_or_empty workflows) = Inr found \<longrightarrow>
      (hours_before now since_hours = Inr t \<longrightarrow>
         sent st (snd (list_runs Hatchet now (Some name) status since_hours lim st))
           = [WorkflowsList,
              RunsList (add_status_filter status
                \<lparr>since = t, limit = lim, statuses = None,
                 workflow_ids = (if found = [] then None else Some found),
                 additional_metadata = None\<rparr>)] \<and>
         fst (list_runs Hatchet now (Some name) status since_hours lim st)
           = (case runs_aio_list (snd hatchet)
                     (add_status_filter status
                        \<lparr>since = t, limit = lim, statuses = None,
                         workflow_ids = (if found = [] then None else Some found),
                         additional_metadata = None\<rparr>) of
                Inl e \<Rightarrow> caught_list e
              | Inr runs \<Rightarrow>
                  (case map_exc serialize_run (rows_or_empty runs) of
                     Inl e \<Rightarrow> caught_list e
                   | Inr result \<Rightarrow> Inr result))) \<and>
      (hours_before now 24 = Inr t \<longrightarrow>
         sent st (snd (get_queue_metrics Hatchet now (Some name) st))
           = [WorkflowsList,
              RunsList \<lparr>since = t, limit = 1000, statuses = None,
                 workflow_ids = (if found = [] then None else Some found),
                 additional_metadata = None\<rparr>] \<and>
         fst (get_queue_metrics Hatchet now (Some name) st)
           = (case runs_aio_list (snd hatchet)
                     \<lparr>since = t, limit = 1000, statuses = None,
                      workflow_ids = (if found = [] then None else Some found),
                      additional_metadata = None\<rparr> of
                Inl e \<Rightarrow> caught_dict e
              | Inr runs \<Rightarrow>
                  (case count_runs initial_counts (rows_or_empty runs) of
                     Inl e \<Rightarrow> caught_dict e
                   | Inr counts \<Rightarrow>
                       Inr [''workflow_name'' \<mapsto> JVal (PStr name),
                            ''time_range_hours'' \<mapsto> JInt 24,
                            ''counts'' \<mapsto> JIntDict counts])))) \<and>
   (get_hatchet_client Hatchet st = (Inr hatchet, st1) \<and>
    workflows_aio_list (snd hatchet) = Inr workflows \<and>
    filter (name_matches name) (rows_or_empty workflows) = [] \<longrightarrow>
      fst (list_runs Hatchet now (Some name) status since_hours lim st)
        = fst (list_runs Hatchet now None status since_hours lim st) \<and>
      (\<forall>q. RunsList q \<in> set (sent st
               (snd (list_runs Hatchet now (Some name) status since_hours lim st)))
            \<longrightarrow> workflow_ids q = None) \<and>
      map_sum id (\<lambda>d. d(''workflow_name'' := None))
          (fst (get_queue_metrics Hatchet now (Some name) st))
        = map_sum id (\<lambda>d. d(''workflow_name'' := None))
            (fst (get_queue_metrics Hatchet now None st)) \<and>
      (\<forall>q. RunsList q \<in> set (sent st (snd (get_queue_metrics Hatchet now (Some name) st)))
            \<longrightarrow> workflow_ids q = None))"
proof (intro conjI impI; (elim conjE)?)
  assume "matching_ids name rows = Inr ids"
  then show "map Inr ids = map metadata_id (filter (name_matches name) rows)"
    by (rule matching_ids_filter)
next
  assume "getattr w ''name'' = Inr (PStr n)"
  then show "name_matches name w = (n = name)"
    by (rule name_matches_str)
next
  assume "\<not> hasattr w ''name''"
  then show "\<not> name_matches name w"
    by (rule name_matches_absent)
next
  assume "name \<noteq> []" "get_hatchet_client Hatchet st = (Inr hatchet, st1)"
    "workflows_aio_list (snd hatchet) = Inr workflows"
    "matching_ids name (rows_or_empty workflows) = Inr found"
    "hours_before now since_hours = Inr t"
  note l = list_runs_named [OF this(2) this(1) this(3) this(4) this(5), of status lim]
  show "sent st (snd (list_runs Hatchet now (Some name) status since_hours lim st))
           = [WorkflowsList,
              RunsList (add_status_filter status
                \<lparr>since = t, limit = lim, statuses = None,
                 workflow_ids = (if found = [] then None else Some found),
                 additional_metadata = None\<rparr>)]"
    by (rule l [THEN conjunct1])
  show "fst (list_runs Hatchet now (Some name) status since_hours lim st)
           = (case runs_aio_list (snd hatchet)
                     (add_status_filter status
                        \<lparr>since = t, limit = lim, statuses = None,
                         workflow_ids = (if found = [] then None else Some found),
                         additional_metadata = None\<rparr>) of
                Inl e \<Rightarrow> caught_list e
              | Inr runs \<Rightarrow>
                  (case map_exc serialize_run (rows_or_empty runs) of
                     Inl e \<Rightarrow> caught_list e
                   | Inr result \<Rightarrow> Inr result))"
    by (rule l [THEN conjunct2])
next
  assume "name \<noteq> []" "get_hatchet_client Hatchet st = (Inr hatchet, st1)"
    "workflows_aio_list (snd hatchet) = Inr workflows"
    "matching_ids name (rows_or_empty workflows) = Inr found"
    "hours_before now 24 = Inr t"
  note q = get_queue_metrics_named [OF this(2) this(1) this(3) this(4) this(5)]
  show "sent st (snd (get_queue_metrics Hatchet now (Some name) st))
           = [WorkflowsList,
              RunsList \<lparr>since = t, limit = 1000, statuses = None,
                 workflow_ids = (if found = [] then None else Some found),
                 additional_metadata = None\<rparr>]"
    by (rule q [THEN conjunct1])
  show "fst (get_queue_metrics Hatchet now (Some name) st)
           = (case runs_aio_list (snd hatchet)
                     \<lparr>since = t, limit = 1000, statuses = None,
                      workflow_ids = (if found = [] then None else Some found),
                      additional_metadata = None\<rparr> of
                Inl e \<Rightarrow> caught_dict e
              | Inr runs \<Rightarrow>
                  (case count_runs initial_counts (rows_or_empty runs) of
                     Inl e \<Rightarrow> caught_dict e
                   | Inr counts \<Rightarrow>
                       Inr [''workflow_name'' \<mapsto> JVal (PStr name),
                            ''time_range_hours'' \<mapsto> JInt 24,
                            ''counts'' \<mapsto> JIntDict counts]))"
    by (rule q [THEN conjunct2])
next
  assume "get_hatchet_client Hatchet st = (Inr hatchet, st1)"
    "workflows_aio_list (snd hatchet) = Inr workflows"
    "filter (name_matches name) (rows_or_empty workflows) = []"
  note u = unmatched_same_outcome [OF this, of now status since_hours lim]
  show "fst (list_runs Hatchet now (Some name) status since_hours lim st)
        = fst (list_runs Hatchet now None status since_hours lim st)"
    by (rule u [THEN conjunct1])
  show "\<forall>q. RunsList q \<in> set (sent st
               (snd (list_runs Hatchet now (Some name) status since_hours lim st)))
            \<longrightarrow> workflow_ids q = None"
    by (rule u [THEN conjunct2, THEN conjunct1])
  show "map_sum id (\<lambda>d. d(''workflow_name'' := None))
          (fst (get_queue_metrics Hatchet now (Some name) st))
        = map_sum id (\<lambda>d. d(''workflow_name'' := None))
            (fst (get_queue_metrics Hatchet now None st))"
    by (rule u [THEN conjunct2, THEN conjunct2, THEN conjunct1])
  show "\<forall>q. RunsList q \<in> set (sent st (snd (get_queue_metrics Hatchet now (Some name) st)))
            \<longrightarrow> workflow_ids q = None"
    by (rule u [THEN conjunct2, THEN conjunct2, THEN conjunct2])
qed

lemma example_workflow_matches:
  "name_matches ''QA-Workflow'' example_workflow"
  "\<not> name_matches ''qa-workflow'' example_workflow"
  "matching_ids ''QA-Workflow'' (rows_or_empty (Some [example_workflow])) = Inr [PStr ''wf-1'']"
  "matching_ids ''qa-workflow'' (rows_or_empty (Some [example_workflow])) = Inr []"
  "filter (name_matches ''qa-workflow'') (rows_or_empty (Some [example_workflow])) = []"
  by (simp_all add: name_matches_def metadata_id_def example_workflow_def getattr_def
      rows_or_empty_def)

theorem unmatched_workflow_name_dropped_witness:
  "name_matches ''QA-Workflow'' example_workflow \<and>
   \<not> name_matches ''qa-workflow'' example_workflow \<and>
   sent initial_state
     (snd (list_runs (ready workflow_client) example_now (Some ''QA-Workflow'') None 24 50
             initial_state))
     = [WorkflowsList,
        RunsList \<lparr>since = example_now - 24 * us_per_hour, limit = 50, statuses = None,
          workflow_ids = Some [PStr ''wf-1''], additional_metadata = None\<rparr>] \<and>
   sent initial_state
     (snd (get_queue_metrics (ready workflow_client) example_now (Some ''QA-Workflow'')
             initial_state))
     = [WorkflowsList,
        RunsList \<lparr>since = example_now - 24 * us_per_hour, limit = 1000, statuses = None,
          workflow_ids = Some [PStr ''wf-1''], additional_metadata = None\<rparr>] \<and>
   sent initial_state
     (snd (get_queue_metrics (ready workflow_client) example_now (Some ''qa-workflow'')
             initial_state))
     = [WorkflowsList,
        RunsList \<lparr>since = example_now - 24 * us_per_hour, limit = 1000, statuses = None,
          workflow_ids = None, additional_metadata = None\<rparr>] \<and>
   fst (list_runs (ready workflow_client) example_now (Some ''qa-workflow'') None 24 50
          initial_state)
     = fst (list_runs (ready workflow_client) example_now None None 24 50 initial_state) \<and>
   map_sum id (\<lambda>d. d(''workflow_name'' := None))
     (fst (get_queue_metrics (ready workflow_client) example_now (Some ''qa-workflow'')
             initial_state))
     = map_sum id (\<lambda>d. d(''workflow_name'' := None))
         (fst (get_queue_metrics (ready workflow_client) example_now None initial_state))"
proof -
  have w: "workflows_aio_list (snd (0, workflow_client)) = Inr (Some [example_workflow])"
    by (simp add: workflow_client_def fixed_client_def)
  have n1: "''QA-Workflow'' \<noteq> []" and n2: "''qa-workflow'' \<noteq> []"
    by simp_all
  note m = example_workflow_matches
  note a = unmatched_workflow_name_dropped [THEN conjunct2, THEN conjunct2, THEN conjunct2,
      THEN conjunct1, THEN mp, OF conjI [OF n1 conjI [OF ready_client conjI [OF w m(3)]]]]
  note b = unmatched_workflow_name_dropped [THEN conjunct2, THEN conjunct2, THEN conjunct2,
      THEN conjunct1, THEN mp, OF conjI [OF n2 conjI [OF ready_client conjI [OF w m(4)]]]]
  note c = unmatched_workflow_name_dropped [THEN conjunct2, THEN conjunct2, THEN conjunct2,
      THEN conjunct2, THEN mp, OF conjI [OF ready_client conjI [OF w m(5)]]]
  have 1: "sent initial_state
     (snd (list_runs (ready workflow_client) example_now (Some ''QA-Workflow'') None 24 50
             initial_state))
     = [WorkflowsList,
        RunsList \<lparr>since = example_now - 24 * us_per_hour, limit = 50, statuses = None,
          workflow_ids = Some [PStr ''wf-1''], additional_metadata = None\<rparr>]"
    using a [THEN conjunct1, THEN mp, OF example_hours_before, THEN conjunct1, of None 50]
    by (simp add: status_filter_None)
  have 2: "sent initial_state
     (snd (get_queue_metrics (ready workflow_client) example_now (Some ''QA-Workflow'')
             initial_state))
     = [WorkflowsList,
        RunsList \<lparr>since = example_now - 24 * us_per_hour, limit = 1000, statuses = None,
          workflow_ids = Some [PStr ''wf-1''], additional_metadata = None\<rparr>]"
    using a [THEN conjunct2, THEN mp, OF example_hours_before, THEN conjunct1]
    by simp
  have 3: "sent initial_state
     (snd (get_queue_metrics (ready workflow_client) example_now (Some ''qa-workflow'')
             initial_state))
     = [WorkflowsList,
        RunsList \<lparr>since = example_now - 24 * us_per_hour, limit = 1000, statuses = None,
          workflow_ids = None, additional_metadata = None\<rparr>]"
    using b [THEN conjunct2, THEN mp, OF example_hours_before, THEN conjunct1]
    by simp
  show ?thesis
    by (intro conjI;
        rule m(1) m(2) 1 2 3 c [THEN conjunct1]
          c [THEN conjunct2, THEN conjunct2, THEN conjunct1])
qed

section \<open>Empty strings\<close>

lemma list_runs_try_no_name_requests:
  "WorkflowsList \<notin> set (sent st (snd (list_runs_try H now None status hrs lim st)))"
proof -
  obtain r st1 where g: "get_hatchet_client H st = (r, st1)"
    by (cases "get_hatchet_client H st")
  note rq = get_hatchet_client_requests [OF g]
  show ?thesis
    using g rq
    by (cases r; cases "hours_before now hrs")
      (auto simp: list_runs_try_def sent_def aio_runs_list_def add_workflow_filter_absent
        split: sum.splits)
qed

lemma get_queue_metrics_try_no_name_requests:
  "WorkflowsList \<notin> set (sent st (snd (get_queue_metrics_try H now None st)))"
proof -
  obtain r st1 where g: "get_hatchet_client H st = (r, st1)"
    by (cases "get_hatchet_client H st")
  note rq = get_hatchet_client_requests [OF g]
  show ?thesis
    using g rq
    by (cases r; cases "hours_before now 24")
      (auto simp: get_queue_metrics_try_def sent_def aio_runs_list_def
        add_workflow_filter_absent split: sum.splits)
qed

lemma get_queue_metrics_try_echo:
  "fst (get_queue_metrics_try H now wn st) = Inr d \<Longrightarrow>
     d ''workflow_name'' = Some (JVal (PStr (name_or_all wn)))"
  by (auto simp: get_queue_metrics_try_def split: prod.splits sum.splits)

lemma error_dict_keys:
  "error_dict e ''error'' = Some (JVal (PStr (exc_str e)))"
  "error_dict e ''workflow_name'' = None"
  "error_dict_run_id e run_id ''error'' = Some (JVal (PStr (exc_str e)))"
  "error_dict_run_id e run_id ''run_id'' = Some (JVal (PStr run_id))"
  by (simp_all add: error_dict_def error_dict_run_id_def)

text \<open>
  C10. An empty string is treated as an absent argument: with status \<^verbatim>\<open>""\<close>, \<^verbatim>\<open>list_runs\<close>
  and \<^verbatim>\<open>search_runs\<close> do what they do without status, and send no status filter; with
  workflow_name \<^verbatim>\<open>""\<close>, \<^verbatim>\<open>list_runs\<close> and \<^verbatim>\<open>get_queue_metrics\<close> do what they do without
  a name, do not fetch the workflow list, and the metrics echo \<^verbatim>\<open>"all"\<close>.
\<close>

theorem empty_string_is_absent:
  "list_runs Hatchet now workflow_name (Some []) since_hours lim st
     = list_runs Hatchet now workflow_name None since_hours lim st \<and>
   search_runs Hatchet now metadata_key metadata_value (Some []) since_hours lim st
     = search_runs Hatchet now metadata_key metadata_value None since_hours lim st \<and>
   (\<forall>q. RunsList q \<in> set (sent st
           (snd (list_runs Hatchet now workflow_name (Some []) since_hours lim st)))
         \<longrightarrow> statuses q = None) \<and>
   (\<forall>q. RunsList q \<in> set (sent st
           (snd (search_runs Hatchet now metadata_key metadata_value (Some []) since_hours
                   lim st)))
         \<longrightarrow> statuses q = None) \<and>
   list_runs Hatchet now (Some []) status since_hours lim st
     = list_runs Hatchet now None status since_hours lim st \<and>
   get_queue_metrics Hatchet now (Some []) st = get_queue_metrics Hatchet now None st \<and>
   WorkflowsList \<notin> set (sent st
      (snd (list_runs Hatchet now (Some []) status since_hours lim st))) \<and>
   WorkflowsList \<notin> set (sent st (snd (get_queue_metrics Hatchet now (Some []) st))) \<and>
   (\<forall>d. fst (get_queue_metrics Hatchet now (Some []) st) = Inr d \<and> d ''error'' = None \<longrightarrow>
      d ''workflow_name'' = Some (JVal (PStr ''all'')))"
proof -
  have e: "add_status_filter (Some []) p = add_status_filter None p" for p
    by (simp add: add_status_filter_def)
  have w: "add_workflow_filter h (Some []) p s = add_workflow_filter h None p s" for h p s
    by (simp add: add_workflow_filter_def)
  have n: "name_or_all (Some []) = name_or_all None" "name_or_all None = ''all''"
    by (simp_all add: name_or_all_def)
  have 1: "list_runs Hatchet now workflow_name (Some []) since_hours lim st
     = list_runs Hatchet now workflow_name None since_hours lim st"
    unfolding list_runs_def list_runs_try_def e by (rule refl)
  have 2: "search_runs Hatchet now metadata_key metadata_value (Some []) since_hours lim st
     = search_runs Hatchet now metadata_key metadata_value None since_hours lim st"
    unfolding search_runs_def search_runs_try_def e by (rule refl)
  have 3: "statuses q = None"
    if "RunsList q \<in> set (sent st
           (snd (list_runs Hatchet now workflow_name (Some []) since_hours lim st)))" for q
    using list_runs_try_sent [OF that [unfolded list_runs_snd]]
    by (simp add: add_status_filter_def)
  have 4: "statuses q = None"
    if "RunsList q \<in> set (sent st
           (snd (search_runs Hatchet now metadata_key metadata_value (Some []) since_hours
                   lim st)))" for q
  proof -
    from search_runs_try_sent [OF that [unfolded search_runs_snd]]
    have "q = \<lparr>since = since q, limit = lim, statuses = None, workflow_ids = None,
              additional_metadata = Some [metadata_key \<mapsto> metadata_value]\<rparr>"
      by (simp add: add_status_filter_def)
    then show ?thesis by (metis params.select_convs(3))
  qed
  have 5: "list_runs Hatchet now (Some []) status since_hours lim st
     = list_runs Hatchet now None status since_hours lim st"
    unfolding list_runs_def list_runs_try_def w by (rule refl)
  have 6: "get_queue_metrics Hatchet now (Some []) st = get_queue_metrics Hatchet now None st"
    unfolding get_queue_metrics_def get_queue_metrics_try_def w n(1) by (rule refl)
  have 7: "WorkflowsList \<notin> set (sent st
      (snd (list_runs Hatchet now (Some []) status since_hours lim st)))"
    unfolding 5 list_runs_snd by (rule list_runs_try_no_name_requests)
  have 8: "WorkflowsList \<notin> set (sent st (snd (get_queue_metrics Hatchet now (Some []) st)))"
    unfolding 6 get_queue_metrics_snd by (rule get_queue_metrics_try_no_name_requests)
  have 9: "d ''workflow_name'' = Some (JVal (PStr ''all''))"
    if "fst (get_queue_metrics Hatchet now (Some []) st) = Inr d \<and> d ''error'' = None" for d
  proof (cases "fst (get_queue_metrics_try Hatchet now None st)")
    case (Inl x)
    with that show ?thesis
      by (auto simp: 6 get_queue_metrics_fst caught_dict_def error_dict_keys split: if_splits)
  next
    case (Inr d')
    with that get_queue_metrics_try_echo [OF Inr] show ?thesis
      by (simp add: 6 get_queue_metrics_fst n)
  qed
  show ?thesis
    by (intro conjI allI impI; (rule 1 2 5 6 7 8 | erule 3 4 9))
qed

section \<open>The queue metrics\<close>

lemma hits_Cons: "hits k (run # runs) = hits k [run] + hits k runs"
  by (simp add: hits_def)

lemma hits_Nil: "hits k [] = 0"
  by (simp add: hits_def)

lemma count_run_step:
  assumes "c ''total'' = Some n" and "\<forall>e. normalized_status run \<noteq> Some (Inl e)"
  shows "count_run c run = Inr (add_run c [run])"
proof (cases "getattr run ''status''")
  case (Inl e)
  then have "count_run c run = Inr (c(''total'' \<mapsto> n + 1))"
    using assms by (simp add: count_run_def dict_incr_def hasattr_def)
  moreover have "add_run c [run] = c(''total'' \<mapsto> n + 1)"
    using Inl assms by (auto simp: add_run_def hits_def normalized_status_def split: option.splits)
  ultimately show ?thesis by simp
next
  case (Inr status)
  with assms obtain name where s: "status_name_of status = Inr name"
    by (cases "status_name_of status") (auto simp: normalized_status_def)
  have h: "hits k [run] = (if k = name then 1 else 0)" for k
    using Inr s by (auto simp: hits_def normalized_status_def)
  show ?thesis
  proof (cases "name \<in> dom (c(''total'' \<mapsto> n + 1))")
    case False
    then have "count_run c run = Inr (c(''total'' \<mapsto> n + 1))"
      using assms Inr s by (simp add: count_run_def dict_incr_def hasattr_def)
    moreover have "add_run c [run] = c(''total'' \<mapsto> n + 1)"
      using False assms by (auto simp: add_run_def h split: option.splits)
    ultimately show ?thesis by simp
  next
    case True
    then obtain m where m: "(c(''total'' \<mapsto> n + 1)) name = Some m"
      by blast
    then have "count_run c run = Inr (c(''total'' \<mapsto> n + 1, name \<mapsto> m + 1))"
      using assms Inr s True by (simp add: count_run_def dict_incr_def hasattr_def)
    moreover have "add_run c [run] = c(''total'' \<mapsto> n + 1, name \<mapsto> m + 1)"
      using m assms by (auto simp: add_run_def h split: option.splits if_splits)
    ultimately show ?thesis by simp
  qed
qed

lemma add_run_add_run: "add_run (add_run c [run]) runs = add_run c (run # runs)"
  by (rule ext) (simp add: add_run_def hits_Cons [of _ run runs] split: option.splits)

lemma count_runs_add_run:
  assumes "c ''total'' \<noteq> None"
    and "\<forall>run \<in> set runs. \<forall>e. normalized_status run \<noteq> Some (Inl e)"
  shows "count_runs c runs = Inr (add_run c runs)"
  using assms
proof (induction runs arbitrary: c)
  case Nil
  have "add_run c [] = c"
    by (rule ext) (simp add: add_run_def hits_Nil split: option.splits)
  then show ?case by simp
next
  case (Cons run runs)
  from Cons.prems obtain n where n: "c ''total'' = Some n"
    by blast
  from Cons.prems have s: "count_run c run = Inr (add_run c [run])"
    by (intro count_run_step [of c n run] n) simp
  have t: "add_run c [run] ''total'' \<noteq> None"
    using n by (simp add: add_run_def)
  from Cons.IH [of "add_run c [run]"] t Cons.prems show ?case
    by (simp add: s add_run_add_run)
qed

lemma add_run_initial: "add_run initial_counts runs = tally runs"
  by (rule ext) (simp add: add_run_def initial_counts_def tally_def)

lemma count_runs_tally:
  "\<forall>run \<in> set runs. \<forall>e. normalized_status run \<noteq> Some (Inl e) \<Longrightarrow>
     count_runs initial_counts runs = Inr (tally runs)"
  using count_runs_add_run [of initial_counts runs]
  by (simp add: add_run_initial) (simp add: initial_counts_def)




lemma name_or_all_cases:
  "name_or_all None = ''all''" "name_or_all (Some []) = ''all''"
  "n \<noteq> [] \<Longrightarrow> name_or_all (Some n) = n"
  by (simp_all add: name_or_all_def)


lemma lower_examples:
  "lower ''RUNNING'' = ''running''" "lower ''Completed'' = ''completed''"
  "lower ''SKIPPED'' = ''skipped''"
  by (simp_all add: lower_def lower_char_def ascii_upper_def ascii_lower_def)

lemma metrics_runs_status:
  "normalized_status example_run = Some (Inr ''running'')"
  "normalized_status (PObj ''Run'' ''run-2'' [(''status'', PStr ''Completed'')])
     = Some (Inr ''completed'')"
  "normalized_status (PObj ''Run'' ''run-3'' [(''status'', PStr ''SKIPPED'')])
     = Some (Inr ''skipped'')"
  "normalized_status (PObj ''Run'' ''run-4'' []) = None"
  by (simp_all add: normalized_status_def example_run_def getattr_def status_name_of_def
      hasattr_def lower_examples)


theorem empty_string_is_absent_witness:
  "get_queue_metrics (ready one_run_client) example_now (Some []) initial_state
     = get_queue_metrics (ready one_run_client) example_now None initial_state \<and>
   list_runs (ready one_run_client) example_now (Some []) (Some []) 24 50 initial_state
     = list_runs (ready one_run_client) example_now None (Some []) 24 50 initial_state \<and>
   fst (get_queue_metrics (ready one_run_client) example_now (Some []) initial_state)
     = Inr [''workflow_name'' \<mapsto> JVal (PStr ''all''),
            ''time_range_hours'' \<mapsto> JInt 24,
            ''counts'' \<mapsto> JIntDict (tally [example_run])] \<and>
   [''workflow_name'' \<mapsto> JVal (PStr ''all''),
    ''time_range_hours'' \<mapsto> JInt 24,
    ''counts'' \<mapsto> JIntDict (tally [example_run])] ''workflow_name''
     = Some (JVal (PStr ''all''))"
proof -
  note t = empty_string_is_absent [of "ready one_run_client" example_now _ _ _ initial_state]
  have c: "count_runs initial_counts [example_run] = Inr (tally [example_run])"
    by (rule count_runs_tally) (simp add: metrics_runs_status)
  have r: "runs_aio_list (snd (0, one_run_client)) q = Inr (Some [example_run])" for q
    by (simp add: one_run_client_def fixed_client_def)
  have v: "fst (get_queue_metrics (ready one_run_client) example_now (Some []) initial_state)
     = Inr [''workflow_name'' \<mapsto> JVal (PStr ''all''),
            ''time_range_hours'' \<mapsto> JInt 24,
            ''counts'' \<mapsto> JIntDict (tally [example_run])]"
    unfolding get_queue_metrics_fst
      get_queue_metrics_try_filtered [OF ready_client example_hours_before
        add_workflow_filter_empty]
      fst_conv r sum.case rows_or_empty_def option.case c name_or_all_cases(2)
    by (rule refl)
  have e: "[''workflow_name'' \<mapsto> JVal (PStr ''all''),
            ''time_range_hours'' \<mapsto> JInt 24,
            ''counts'' \<mapsto> JIntDict (tally [example_run])] ''error'' = None"
    by simp
  note a = t [THEN conjunct2, THEN conjunct2, THEN conjunct2, THEN conjunct2, THEN conjunct2,
      THEN conjunct1]
    t [THEN conjunct2, THEN conjunct2, THEN conjunct2, THEN conjunct2, THEN conjunct1]
    t [THEN conjunct2, THEN conjunct2, THEN conjunct2, THEN conjunct2, THEN conjunct2,
      THEN conjunct2, THEN conjunct2, THEN conjunct2, rule_format, OF conjI [OF v e]]
  show ?thesis
    by (intro conjI; rule a v)
qed

section \<open>Exceptions become values\<close>

lemma list_workflows_fst:
  "fst (list_workflows H st) =
     (case fst (list_workflows_try H st) of
        Inl e \<Rightarrow> caught_list e | Inr result \<Rightarrow> Inr result)"
  by (simp add: list_workflows_def split: prod.splits sum.splits)

lemma get_run_status_fst:
  "fst (get_run_status H run_id st) =
     (case fst (get_run_status_try H run_id st) of
        Inl e \<Rightarrow> caught_run_id e run_id | Inr result \<Rightarrow> Inr result)"
  by (simp add: get_run_status_def split: prod.splits sum.splits)

lemma get_run_result_fst:
  "fst (get_run_result H run_id st) =
     (case fst (get_run_result_try H run_id st) of
        Inl e \<Rightarrow> caught_run_id e run_id | Inr result \<Rightarrow> Inr result)"
  by (simp add: get_run_result_def split: prod.splits sum.splits)

lemma tools_raise_no_Exception:
  "fst (list_workflows H st) = Inl x \<Longrightarrow> \<not> isinstance_Exception x"
  "fst (list_runs H now wn status hrs lim st) = Inl x \<Longrightarrow> \<not> isinstance_Exception x"
  "fst (get_run_status H run_id st) = Inl x \<Longrightarrow> \<not> isinstance_Exception x"
  "fst (get_run_result H run_id st) = Inl x \<Longrightarrow> \<not> isinstance_Exception x"
  "fst (get_queue_metrics H now wn st) = Inl x \<Longrightarrow> \<not> isinstance_Exception x"
  "fst (search_runs H now k v status hrs lim st) = Inl x \<Longrightarrow> \<not> isinstance_Exception x"
  by (auto simp: list_workflows_fst list_runs_fst get_run_status_fst get_run_result_fst
      get_queue_metrics_fst search_runs_fst split: sum.splits dest: caught_raises)

text \<open>
  C6. Whatever exception \<open>e\<close> the construction of the client, a call of the client, the
  collection of workflow ids, the flattening of a run or the counting loop raises, the tool
  ends as its handler does on \<open>e\<close>. For an instance of \<^verbatim>\<open>Exception\<close> that is a returned
  value: \<open>[error_dict e]\<close> for the tools that return a list, \<open>error_dict e\<close> for
  \<^verbatim>\<open>get_queue_metrics\<close>, and \<open>error_dict_run_id e run_id\<close>, which also has the given
  \<^verbatim>\<open>run_id\<close>, for \<^verbatim>\<open>get_run_status\<close> and \<^verbatim>\<open>get_run_result\<close>; the \<^verbatim>\<open>error\<close> entry is
  \<^verbatim>\<open>str(e)\<close>. No tool raises an instance of \<^verbatim>\<open>Exception\<close> to its caller. An exception
  that is not an instance of \<^verbatim>\<open>Exception\<close> passes through \<^verbatim>\<open>except Exception\<close>: the tool
  raises it.
\<close>

theorem tools_return_errors:
  "(get_hatchet_client Hatchet st = (Inl e, st1) \<longrightarrow>
      fst (list_workflows Hatchet st) = caught_list e \<and>
      fst (list_runs Hatchet now workflow_name status since_hours lim st) = caught_list e \<and>
      fst (get_run_status Hatchet run_id st) = caught_run_id e run_id \<and>
      fst (get_run_result Hatchet run_id st) = caught_run_id e run_id \<and>
      fst (get_queue_metrics Hatchet now workflow_name st) = caught_dict e \<and>
      fst (search_runs Hatchet now metadata_key metadata_value status since_hours lim st)
        = caught_list e) \<and>
   (get_hatchet_client Hatchet st = (Inr hatchet, st1) \<longrightarrow>
      (workflows_aio_list (snd hatchet) = Inl e \<longrightarrow>
         fst (list_workflows Hatchet st) = caught_list e) \<and>
      (runs_aio_get (snd hatchet) run_id = Inl e \<longrightarrow>
         fst (get_run_status Hatchet run_id st) = caught_run_id e run_id) \<and>
      (runs_aio_get (snd hatchet) run_id = Inr run \<and> serialize_run run = Inl e \<longrightarrow>
         fst (get_run_status Hatchet run_id st) = caught_run_id e run_id) \<and>
      (runs_aio_get_result (snd hatchet) run_id = Inl e \<longrightarrow>
         fst (get_run_result Hatchet run_id st) = caught_run_id e run_id) \<and>
      (hours_before now since_hours = Inr t \<longrightarrow>
         (fst (add_workflow_filter hatchet workflow_name
                 (add_status_filter status
                    \<lparr>since = t, limit = lim, statuses = None, workflow_ids = None,
                     additional_metadata = None\<rparr>) st1) = Inl e \<longrightarrow>
            fst (list_runs Hatchet now workflow_name status since_hours lim st)
              = caught_list e) \<and>
         (fst (add_workflow_filter hatchet workflow_name
                 (add_status_filter status
                    \<lparr>since = t, limit = lim, statuses = None, workflow_ids = None,
                     additional_metadata = None\<rparr>) st1) = Inr p \<and>
          (runs_aio_list (snd hatchet) p = Inl e \<or>
           (\<exists>runs. runs_aio_list (snd hatchet) p = Inr runs \<and>
                    map_exc serialize_run (rows_or_empty runs) = Inl e)) \<longrightarrow>
            fst (list_runs Hatchet now workflow_name status since_hours lim st)
              = caught_list e) \<and>
         (runs_aio_list (snd hatchet)
             (add_status_filter status
                \<lparr>since = t, limit = lim, statuses = None, workflow_ids = None,
                 additional_metadata = Some [metadata_key \<mapsto> metadata_value]\<rparr>) = Inl e \<or>
          (\<exists>runs. runs_aio_list (snd hatchet)
             (add_status_filter status
                \<lparr>since = t, limit = lim, statuses = None, workflow_ids = None,
                 additional_metadata = Some [metadata_key \<mapsto> metadata_value]\<rparr>) = Inr runs \<and>
                 map_exc serialize_run (rows_or_empty runs) = Inl e) \<longrightarrow>
            fst (search_runs Hatchet now metadata_key metadata_value status since_hours lim st)
              = caught_list e)) \<and>
      (hours_before now 24 = Inr t \<longrightarrow>
         (fst (add_workflow_filter hatchet workflow_name
                    \<lparr>since = t, limit = 1000, statuses = None, workflow_ids = None,
                     additional_metadata = None\<rparr> st1) = Inl e \<longrightarrow>
            fst (get_queue_metrics Hatchet now workflow_name st) = caught_dict e) \<and>
         (fst (add_workflow_filter hatchet workflow_name
                    \<lparr>since = t, limit = 1000, statuses = None, workflow_ids = None,
                     additional_metadata = None\<rparr> st1) = Inr p \<and>
          (runs_aio_list (snd hatchet) p = Inl e \<or>
           (\<exists>runs. runs_aio_list (snd hatchet) p = Inr runs \<and>
                    count_runs initial_counts (rows_or_empty runs) = Inl e)) \<longrightarrow>
            fst (get_queue_metrics Hatchet now workflow_name st) = caught_dict e)) \<and>
      (workflow_name = Some name \<and> name \<noteq> [] \<and>
       workflows_aio_list (snd hatchet) = Inl e \<longrightarrow>
         fst (add_workflow_filter hatchet workflow_name p st1) = Inl e)) \<and>
   (isinstance_Exception e \<longrightarrow>
      caught_list e = Inr [error_dict e] \<and>
      caught_dict e = Inr (error_dict e) \<and>
      caught_run_id e run_id = Inr (error_dict_run_id e run_id)) \<and>
   (\<not> isinstance_Exception e \<longrightarrow>
      caught_list e = Inl e \<and> caught_dict e = Inl e \<and> caught_run_id e run_id = Inl e) \<and>
   (\<forall>x. fst (list_workflows Hatchet st) = Inl x \<longrightarrow> \<not> isinstance_Exception x) \<and>
   (\<forall>x. fst (list_runs Hatchet now workflow_name status since_hours lim st) = Inl x
        \<longrightarrow> \<not> isinstance_Exception x) \<and>
   (\<forall>x. fst (get_run_status Hatchet run_id st) = Inl x \<longrightarrow> \<not> isinstance_Exception x) \<and>
   (\<forall>x. fst (get_run_result Hatchet run_id st) = Inl x \<longrightarrow> \<not> isinstance_Exception x) \<and>
   (\<forall>x. fst (get_queue_metrics Hatchet now workflow_name st) = Inl x
        \<longrightarrow> \<not> isinstance_Exception x) \<and>
   (\<forall>x. fst (search_runs Hatchet now metadata_key metadata_value status since_hours lim st)
          = Inl x \<longrightarrow> \<not> isinstance_Exception x) \<and>
   error_dict e ''error'' = Some (JVal (PStr (exc_str e))) \<and>
   error_dict_run_id e run_id ''error'' = Some (JVal (PStr (exc_str e))) \<and>
   error_dict_run_id e run_id ''run_id'' = Some (JVal (PStr run_id))"
proof -
  have a: "fst (list_workflows Hatchet st) = caught_list e \<and>
      fst (list_runs Hatchet now workflow_name status since_hours lim st) = caught_list e \<and>
      fst (get_run_status Hatchet run_id st) = caught_run_id e run_id \<and>
      fst (get_run_result Hatchet run_id st) = caught_run_id e run_id \<and>
      fst (get_queue_metrics Hatchet now workflow_name st) = caught_dict e \<and>
      fst (search_runs Hatchet now metadata_key metadata_value status since_hours lim st)
        = caught_list e"
    if "get_hatchet_client Hatchet st = (Inl e, st1)"
    using that
    by (simp add: list_workflows_def list_workflows_try_def list_runs_def list_runs_try_def
        get_run_status_def get_run_status_try_def get_run_result_def get_run_result_try_def
        get_queue_metrics_def get_queue_metrics_try_def search_runs_def search_runs_try_def)
  have b: "get_hatchet_client Hatchet st = (Inr hatchet, st1) \<longrightarrow>
      (workflows_aio_list (snd hatchet) = Inl e \<longrightarrow>
         fst (list_workflows Hatchet st) = caught_list e) \<and>
      (runs_aio_get (snd hatchet) run_id = Inl e \<longrightarrow>
         fst (get_run_status Hatchet run_id st) = caught_run_id e run_id) \<and>
      (runs_aio_get (snd hatchet) run_id = Inr run \<and> serialize_run run = Inl e \<longrightarrow>
         fst (get_run_status Hatchet run_id st) = caught_run_id e run_id) \<and>
      (runs_aio_get_result (snd hatchet) run_id = Inl e \<longrightarrow>
         fst (get_run_result Hatchet run_id st) = caught_run_id e run_id)"
    by (simp add: list_workflows_def list_workflows_try_def aio_workflows_list_def
        get_run_status_def get_run_status_try_def aio_runs_get_def
        get_run_result_def get_run_result_try_def aio_runs_get_result_def)
  have c: "(fst (add_workflow_filter hatchet workflow_name
                 (add_status_filter status
                    \<lparr>since = t, limit = lim, statuses = None, workflow_ids = None,
                     additional_metadata = None\<rparr>) st1) = Inl e \<longrightarrow>
            fst (list_runs Hatchet now workflow_name status since_hours lim st)
              = caught_list e) \<and>
         (fst (add_workflow_filter hatchet workflow_name
                 (add_status_filter status
                    \<lparr>since = t, limit = lim, statuses = None, workflow_ids = None,
                     additional_metadata = None\<rparr>) st1) = Inr p \<and>
          (runs_aio_list (snd hatchet) p = Inl e \<or>
           (\<exists>runs. runs_aio_list (snd hatchet) p = Inr runs \<and>
                    map_exc serialize_run (rows_or_empty runs) = Inl e)) \<longrightarrow>
            fst (list_runs Hatchet now workflow_name status since_hours lim st)
              = caught_list e)"
    if "get_hatchet_client Hatchet st = (Inr hatchet, st1)"
      and "hours_before now since_hours = Inr t"
    using that
    by (cases "add_workflow_filter hatchet workflow_name
                 (add_status_filter status
                    \<lparr>since = t, limit = lim, statuses = None, workflow_ids = None,
                     additional_metadata = None\<rparr>) st1")
      (auto simp: list_runs_def list_runs_try_def aio_runs_list_def)
  have d: "(runs_aio_list (snd hatchet)
             (add_status_filter status
                \<lparr>since = t, limit = lim, statuses = None, workflow_ids = None,
                 additional_metadata = Some [metadata_key \<mapsto> metadata_value]\<rparr>) = Inl e \<or>
          (\<exists>runs. runs_aio_list (snd hatchet)
             (add_status_filter status
                \<lparr>since = t, limit = lim, statuses = None, workflow_ids = None,
                 additional_metadata = Some [metadata_key \<mapsto> metadata_value]\<rparr>) = Inr runs \<and>
                 map_exc serialize_run (rows_or_empty runs) = Inl e) \<longrightarrow>
            fst (search_runs Hatchet now metadata_key metadata_value status since_hours lim st)
              = caught_list e)"
    if "get_hatchet_client Hatchet st = (Inr hatchet, st1)"
      and "hours_before now since_hours = Inr t"
    using that
    by (auto simp: search_runs_def search_runs_try_def aio_runs_list_def)
  have f: "(fst (add_workflow_filter hatchet workflow_name
                    \<lparr>since = t, limit = 1000, statuses = None, workflow_ids = None,
                     additional_metadata = None\<rparr> st1) = Inl e \<longrightarrow>
            fst (get_queue_metrics Hatchet now workflow_name st) = caught_dict e) \<and>
         (fst (add_workflow_filter hatchet workflow_name
                    \<lparr>since = t, limit = 1000, statuses = None, workflow_ids = None,
                     additional_metadata = None\<rparr> st1) = Inr p \<and>
          (runs_aio_list (snd hatchet) p = Inl e \<or>
           (\<exists>runs. runs_aio_list (snd hatchet) p = Inr runs \<and>
                    count_runs initial_counts (rows_or_empty runs) = Inl e)) \<longrightarrow>
            fst (get_queue_metrics Hatchet now workflow_name st) = caught_dict e)"
    if "get_hatchet_client Hatchet st = (Inr hatchet, st1)"
      and "hours_before now 24 = Inr t"
    using that
    by (cases "add_workflow_filter hatchet workflow_name
                    \<lparr>since = t, limit = 1000, statuses = None, workflow_ids = None,
                     additional_metadata = None\<rparr> st1")
      (auto simp: get_queue_metrics_def get_queue_metrics_try_def aio_runs_list_def)
  have w: "workflow_name = Some name \<and> name \<noteq> [] \<and>
       workflows_aio_list (snd hatchet) = Inl e \<longrightarrow>
         fst (add_workflow_filter hatchet workflow_name p st1) = Inl e"
    by (simp add: add_workflow_filter_def aio_workflows_list_def)
  show ?thesis
    by (intro conjI)
      (use a in blast, use b c d f w in simp, simp add: caught_cases, simp add: caught_cases,
        (intro allI impI, erule tools_raise_no_Exception)+, simp_all add: error_dict_keys)
qed

theorem tools_return_errors_witness:
  "runs_aio_get (snd (0, one_run_client)) ''run-123'' = Inl (Error ''not found'') \<and>
   isinstance_Exception (Error ''not found'') \<and>
   fst (get_run_status (ready one_run_client) ''run-123'' initial_state)
     = Inr [''error'' \<mapsto> JVal (PStr ''not found''), ''run_id'' \<mapsto> JVal (PStr ''run-123'')]"
proof -
  have r: "runs_aio_get (snd (0, one_run_client)) ''run-123'' = Inl (Error ''not found'')"
    by (simp add: one_run_client_def fixed_client_def)
  have i: "isinstance_Exception (Error ''not found'')"
    by simp
  note t = tools_return_errors [where e = "Error ''not found''" and run_id = "''run-123''"]
  note v = t [THEN conjunct2, THEN conjunct1, rule_format, OF ready_client,
      THEN conjunct2, THEN conjunct1, rule_format, OF r]
  note k = t [THEN conjunct2, THEN conjunct2, THEN conjunct1, rule_format, OF i,
      THEN conjunct2, THEN conjunct2]
  have "fst (get_run_status (ready one_run_client) ''run-123'' initial_state)
     = Inr [''error'' \<mapsto> JVal (PStr ''not found''), ''run_id'' \<mapsto> JVal (PStr ''run-123'')]"
    unfolding v k error_dict_run_id_def exc_str.simps by (rule refl)
  with r i show ?thesis
    by (intro conjI)
qed

text \<open>
  The tool raises when the task is cancelled while it awaits the client: the
  \<^verbatim>\<open>CancelledError\<close> is no instance of \<^verbatim>\<open>Exception\<close>, so \<^verbatim>\<open>get_run_status\<close> returns no
  error value for it.
\<close>

theorem cancelled_get_run_status_raises:
  "runs_aio_get (snd (0, cancelled_client)) ''run-123'' = Inl (CancelledError []) \<and>
   fst (get_run_status (ready cancelled_client) ''run-123'' initial_state)
     = Inl (CancelledError [])"
  by (simp add: get_run_status_def get_run_status_try_def ready_client aio_runs_get_def
      cancelled_client_def fixed_client_def caught_run_id_def)

end
